theory Spec2Isabelle
  imports Main "HOL-Library.AList" "HOL-Library.Sublist"
begin

section \<open>The ecosystem test runner: shell commands, repositories, overrides, bisection\<close>

text \<open>
  The development embeds the module of utilities of the runner (\<^verbatim>\<open>$\<close>, \<^verbatim>\<open>setupEnvironment\<close>,
  \<^verbatim>\<open>setupRepo\<close>, \<^verbatim>\<open>toCommand\<close>, \<^verbatim>\<open>parseCommand\<close>, \<^verbatim>\<open>runInRepo\<close>, \<^verbatim>\<open>bisectQwik\<close>,
  \<^verbatim>\<open>isLocalOverride\<close>, \<^verbatim>\<open>overridePackageManagerVersion\<close>, \<^verbatim>\<open>applyPackageOverrides\<close>).

  The module is written against collaborators that are not part of it: the shell
  (\<^verbatim>\<open>execSync\<close>), the file system, the detection of the package manager, \<^verbatim>\<open>path\<close>,
  \<^verbatim>\<open>semver\<close>. They are the fields of the record \<open>sys\<close>. What a collaborator answers may
  depend on everything that happened before, so each of them reads the list of the
  events so far. A string is a list of 8-bit code units.
\<close>

subsection \<open>Events, collaborators and the module's variables\<close>

type_synonym env_vars = "string \<rightharpoonup> string"

text \<open>The options object that \<^verbatim>\<open>$\<close> hands to \<^verbatim>\<open>execSync\<close>; a member that is left out is \<open>None\<close>.\<close>

record exec_options =
  opt_cwd :: string
  opt_encoding :: string
  opt_env :: "env_vars option"

datatype lstat_result = IsDirectory | NotDirectory | ENOENT | LstatError string

datatype probe_result = ProbeVoid | ProbeError string | ProbeThrows string

text \<open>The parsed manifest \<^verbatim>\<open>package.json\<close>, with the members the module reads or writes.
  A member that is absent is \<open>None\<close>; \<open>pkg_pnpm\<close> is the member \<^verbatim>\<open>pnpm\<close> and, inside it,
  the member \<^verbatim>\<open>overrides\<close>.\<close>

record pkg =
  pkg_scripts :: "(string \<rightharpoonup> string) option"
  pkg_dependencies :: "(string \<rightharpoonup> string) option"
  pkg_devDependencies :: "(string \<rightharpoonup> string) option"
  pkg_resolutions :: "(string \<rightharpoonup> string) option"
  pkg_overrides :: "(string \<rightharpoonup> string) option"
  pkg_pnpm :: "(string \<rightharpoonup> string) option option"
  pkg_packageManager :: "string option"
  pkg_engines :: "(string \<rightharpoonup> string) option"

datatype event =
    Exec string exec_options "string option"
  | RmSync string
  | MkdirSync string
  | WriteFileSync string string
  | WritePkg string pkg
  | CallTask nat "string option"
  | Probe probe_result
  | Log string

datatype error =
    CommandFailed string
  | MissingDir
  | InvalidTask string string
  | MissingScript string
  | TaskFailed string
  | ScriptsUndefined
  | DetectFailed string
  | InvalidAgent string
  | ReadFailed string
  | ConflictingOverrides string string
  | LstatFailed string
  | InvalidVersion string
  | UnsupportedManager string
  | ProbeRaised string

record sys =
  process_env :: env_vars
  process_cwd :: string
  module_dir :: string
  execSync :: "event list \<Rightarrow> string \<Rightarrow> exec_options \<Rightarrow> string option"
  existsSync :: "event list \<Rightarrow> string \<Rightarrow> bool"
  lstatSync :: "event list \<Rightarrow> string \<Rightarrow> lstat_result"
  readPkg :: "event list \<Rightarrow> string \<Rightarrow> pkg option"
  detect :: "event list \<Rightarrow> string \<Rightarrow> string option"
  callTask :: "event list \<Rightarrow> nat \<Rightarrow> string option"
  path_resolve :: "string \<Rightarrow> string \<Rightarrow> string"
  path_join :: "string \<Rightarrow> string \<Rightarrow> string"
  getCommand :: "string \<Rightarrow> string \<Rightarrow> string list \<Rightarrow> string"
  is_agent :: "string \<Rightarrow> bool"
  semver_eq :: "string \<Rightarrow> string \<Rightarrow> bool option"

text \<open>The variables of the module (\<^verbatim>\<open>cwd\<close>, \<^verbatim>\<open>qwikPath\<close>, \<^verbatim>\<open>env\<close>) and the events so far,
  the oldest first.\<close>

record state =
  cwd :: string
  qwikPath :: string
  env :: env_vars
  trace :: "event list"

type_synonym 'a io = "state \<Rightarrow> (error + 'a) \<times> state"

definition return_io :: "'a \<Rightarrow> 'a io" where
  "return_io a s = (Inr a, s)"

definition throw_io :: "error \<Rightarrow> 'a io" where
  "throw_io e s = (Inl e, s)"

definition bind_io :: "'a io \<Rightarrow> ('a \<Rightarrow> 'b io) \<Rightarrow> 'b io" where
  "bind_io m f s = (case m s of (Inl e, s') \<Rightarrow> (Inl e, s') | (Inr a, s') \<Rightarrow> f a s')"

definition emit :: "event \<Rightarrow> state \<Rightarrow> state" where
  "emit ev s = s\<lparr>trace := trace s @ [ev]\<rparr>"

text \<open>\<^verbatim>\<open>cd(dir)\<close>: \<^verbatim>\<open>cwd = path.resolve(cwd, dir)\<close>.\<close>

definition cd :: "sys \<Rightarrow> string \<Rightarrow> state \<Rightarrow> state" where
  "cd sys dir s = s\<lparr>cwd := path_resolve sys (cwd s) dir\<rparr>"

text \<open>The tagged template \<^verbatim>\<open>$\<close>. The command is the fold of the literals with the values
  between them, a value that is null or undefined giving the empty string. The command
  is run by \<^verbatim>\<open>execSync(cmd, {cwd, encoding: 'utf-8'})\<close> and its output is returned as it
  is; \<open>None\<close> from the shell is the exception that \<^verbatim>\<open>execSync\<close> raises. The line that is
  logged before the command holds the same \<open>cwd\<close> and \<open>cmd\<close> as the event.\<close>

fun template :: "string list \<Rightarrow> string option list \<Rightarrow> string" where
  "template [] vs = []"
| "template (l # ls) [] = l @ template ls []"
| "template (l # ls) (v # vs) = l @ (case v of None \<Rightarrow> [] | Some x \<Rightarrow> x) @ template ls vs"

definition dollar :: "sys \<Rightarrow> string list \<Rightarrow> string option list \<Rightarrow> string io" where
  "dollar sys literals vals s =
     (let cmd = template literals vals;
          opts = \<lparr>opt_cwd = cwd s, opt_encoding = ''utf-8'', opt_env = None\<rparr>;
          result = execSync sys (trace s) cmd opts;
          s' = emit (Exec cmd opts result) s
      in case result of None \<Rightarrow> (Inl (CommandFailed cmd), s') | Some out \<Rightarrow> (Inr out, s'))"

text \<open>The environment a command runs in: the member \<^verbatim>\<open>env\<close> of the options when there is
  one, the environment of the process otherwise (the default of \<^verbatim>\<open>execSync\<close>).\<close>

definition child_env :: "sys \<Rightarrow> exec_options \<Rightarrow> env_vars" where
  "child_env sys opts = (case opt_env opts of None \<Rightarrow> process_env sys | Some e \<Rightarrow> e)"

subsection \<open>\<^verbatim>\<open>setupEnvironment\<close> and \<^verbatim>\<open>initWorkspace\<close>\<close>

record environment_data =
  ed_root :: string
  ed_workspace :: string
  ed_qwikPath :: string
  ed_cwd :: string
  ed_env :: env_vars

definition write_if_missing :: "sys \<Rightarrow> string \<Rightarrow> string \<Rightarrow> state \<Rightarrow> state" where
  "write_if_missing sys file content s =
     (if \<not> existsSync sys (trace s) file then emit (WriteFileSync file content) s else s)"

definition initWorkspace :: "sys \<Rightarrow> string \<Rightarrow> state \<Rightarrow> state" where
  "initWorkspace sys workspace s =
     (let s1 = (if \<not> existsSync sys (trace s) workspace then emit (MkdirSync workspace) s else s);
          s2 = write_if_missing sys (path_join sys workspace ''.eslintrc.json'')
                 (''{\"root\":true}'' @ [CHR 0x0A]) s1;
          s3 = write_if_missing sys (path_join sys workspace ''.editorconfig'')
                 (''root = true'' @ [CHR 0x0A]) s2
      in write_if_missing sys (path_join sys workspace ''tsconfig.json'') (''{}'' @ [CHR 0x0A]) s3)"

definition setupEnvironment :: "sys \<Rightarrow> state \<Rightarrow> environment_data \<times> state" where
  "setupEnvironment sys s =
     (let root = module_dir sys;
          workspace = path_resolve sys root ''workspace'';
          s1 = s\<lparr>qwikPath := path_resolve sys workspace ''qwik'',
                 cwd := process_cwd sys,
                 env := (process_env sys)(''CI'' \<mapsto> ''true'',
                          ''YARN_ENABLE_IMMUTABLE_INSTALLS'' \<mapsto> ''false'',
                          ''NODE_OPTIONS'' \<mapsto> ''--max-old-space-size=6144'',
                          ''ECOSYSTEM_CI'' \<mapsto> ''true'')\<rparr>;
          s2 = initWorkspace sys workspace s1
      in (\<lparr>ed_root = root, ed_workspace = workspace, ed_qwikPath = qwikPath s2,
           ed_cwd = cwd s2, ed_env = env s2\<rparr>, s2))"

subsection \<open>Values of JavaScript\<close>

text \<open>An optional string is truthy when it is present and not empty; \<^verbatim>\<open>a || b\<close> is \<open>a\<close>
  when \<open>a\<close> is truthy and \<open>b\<close> otherwise; a template literal prints an absent value as
  \<^verbatim>\<open>undefined\<close>.\<close>

definition truthy :: "string option \<Rightarrow> bool" where
  "truthy v = (case v of None \<Rightarrow> False | Some x \<Rightarrow> x \<noteq> [])"

definition js_or :: "string option \<Rightarrow> string option \<Rightarrow> string option" where
  "js_or a b = (if truthy a then a else b)"

definition stringify :: "string option \<Rightarrow> string" where
  "stringify v = (case v of None \<Rightarrow> ''undefined'' | Some x \<Rightarrow> x)"

text \<open>The scripts and the blocks of dependencies of a manifest are plain objects. Reading a
  member that such an object does not have itself gives the member of that name of
  \<^verbatim>\<open>Object.prototype\<close>, when there is one. These are its members; none of them is null or
  undefined, and each of them is truthy. Assigning to one of them on an object makes a
  member of the object itself, except for \<^verbatim>\<open>__proto__\<close>, whose setter ignores a string.\<close>

definition object_prototype_names :: "string list" where
  "object_prototype_names =
     [''constructor'', ''__defineGetter__'', ''__defineSetter__'', ''hasOwnProperty'',
      ''__lookupGetter__'', ''__lookupSetter__'', ''isPrototypeOf'', ''propertyIsEnumerable'',
      ''toString'', ''valueOf'', ''__proto__'', ''toLocaleString'']"

definition inherited :: "string \<Rightarrow> bool" where
  "inherited name = (name \<in> set object_prototype_names)"

text \<open>\<^verbatim>\<open>if (obj[name])\<close> and \<^verbatim>\<open>obj[name] = v\<close> on an object of strings.\<close>

definition member_truthy :: "(string \<rightharpoonup> string) \<Rightarrow> string \<Rightarrow> bool" where
  "member_truthy obj name = (case obj name of Some v \<Rightarrow> v \<noteq> [] | None \<Rightarrow> inherited name)"

definition assign_member :: "string \<Rightarrow> string \<Rightarrow> (string \<rightharpoonup> string) \<Rightarrow> (string \<rightharpoonup> string)" where
  "assign_member name v obj =
     (if obj name = None \<and> name = ''__proto__'' then obj else obj(name \<mapsto> v))"

subsection \<open>\<^verbatim>\<open>setupRepo\<close>\<close>

record repo_options =
  ro_repo :: string
  ro_dir :: "string option"
  ro_branch :: "string option"
  ro_tag :: "string option"
  ro_commit :: "string option"
  ro_shallow :: "bool option"

text \<open>The first lines of \<^verbatim>\<open>setupRepo\<close> write the defaults into the object it was given.\<close>

definition setupRepo_defaults :: "repo_options \<Rightarrow> repo_options" where
  "setupRepo_defaults options =
     (let options1 = (if ro_branch options = None then options\<lparr>ro_branch := Some ''main''\<rparr>
                      else options)
      in if ro_shallow options1 = None then options1\<lparr>ro_shallow := Some True\<rparr> else options1)"

text \<open>The test of the directory that is there: the result is \<^verbatim>\<open>needClone\<close>. The output of
  \<^verbatim>\<open>git ls-remote --get-url\<close> is compared with \<open>repo\<close> as \<^verbatim>\<open>$\<close> returned it.\<close>

definition setupRepo_needClone :: "sys \<Rightarrow> string \<Rightarrow> string \<Rightarrow> state \<Rightarrow> bool \<times> state" where
  "setupRepo_needClone sys repo dir s =
     (if existsSync sys (trace s) dir then
        (let cwd0 = cwd s;
             (r, s1) = dollar sys [''git ls-remote --get-url''] [] (cd sys dir s);
             currentClonedRepo = (case r of Inl e \<Rightarrow> None | Inr out \<Rightarrow> Some out);
             s2 = cd sys cwd0 s1
         in if Some repo = currentClonedRepo then (False, s2)
            else (True, emit (RmSync dir) s2))
      else (True, s))"

definition setupRepo_checkout :: "sys \<Rightarrow> repo_options \<Rightarrow> string \<Rightarrow> unit io" where
  "setupRepo_checkout sys options dir =
     (let commit = ro_commit options; branch = ro_branch options; tag = ro_tag options;
          shallow = (ro_shallow options = Some True)
      in bind_io (\<lambda>s. (Inr (), cd sys dir s)) (\<lambda>_.
         bind_io (dollar sys [''git clean -fdxq''] []) (\<lambda>_.
         bind_io (dollar sys [''git fetch '', '' origin '', '''']
                    [Some (if shallow then ''--depth=1 --no-tags'' else ''--tags''),
                     Some (if truthy tag then ''tag '' @ stringify tag
                           else stringify (js_or commit branch))]) (\<lambda>_.
         if shallow then
           bind_io (dollar sys [''git -c advice.detachedHead=false checkout '', '''']
                      [Some (if truthy tag then ''tags/'' @ stringify tag
                             else stringify (js_or commit branch))]) (\<lambda>_. return_io ())
         else
           bind_io (dollar sys [''git checkout '', ''''] [branch]) (\<lambda>_.
           bind_io (dollar sys [''git merge FETCH_HEAD''] []) (\<lambda>_.
           if truthy tag \<or> truthy commit then
             bind_io (dollar sys [''git reset --hard '', ''''] [js_or tag commit])
               (\<lambda>_. return_io ())
           else return_io ()))))))"

definition setupRepo_run :: "sys \<Rightarrow> repo_options \<Rightarrow> unit io" where
  "setupRepo_run sys options s =
     (if \<not> truthy (ro_dir options) then (Inl MissingDir, s)
      else
        (let dir = stringify (ro_dir options);
             repo = (if CHR '':'' \<notin> set (ro_repo options)
                     then ''https://github.com/'' @ ro_repo options @ ''.git''
                     else ro_repo options);
             shallow = (ro_shallow options = Some True);
             (needClone, s1) = setupRepo_needClone sys repo dir s
         in bind_io
              (if needClone then
                 bind_io (dollar sys
                            [''git -c advice.detachedHead=false clone '', '' --branch '', '' '',
                             '' '', '''']
                            [Some (if shallow then ''--depth=1 --no-tags'' else ''''),
                             js_or (ro_tag options) (ro_branch options), Some repo, Some dir])
                   (\<lambda>_. return_io ())
               else return_io ())
              (\<lambda>_. setupRepo_checkout sys options dir) s1))"

text \<open>\<^verbatim>\<open>setupRepo\<close> returns nothing; the second component is the options object after the
  call.\<close>

definition setupRepo :: "sys \<Rightarrow> repo_options \<Rightarrow> state \<Rightarrow> ((error + unit) \<times> state) \<times> repo_options" where
  "setupRepo sys options0 s =
     (let options = setupRepo_defaults options0 in (setupRepo_run sys options s, options))"

subsection \<open>\<^verbatim>\<open>parseCommand\<close> and \<^verbatim>\<open>toCommand\<close>\<close>

text \<open>The classes of the regular expression \<^verbatim>\<open>/^(\w+)(?:\s+(--.+))?$/\<close>, on code units
  below 256: \<^verbatim>\<open>\w\<close> is a letter of ASCII, a digit or the underscore; \<^verbatim>\<open>\s\<close> is a tab, a
  line feed, a vertical tab, a form feed, a carriage return, a space or a no-break space,
  and \<^verbatim>\<open>trim\<close> removes the same characters; \<^verbatim>\<open>.\<close> is anything but a line feed or a
  carriage return.\<close>

definition isWordChar :: "char \<Rightarrow> bool" where
  "isWordChar c =
     (c \<in> set ''abcdefghijklmnopqrstuvwxyzABCDEFGHIJKLMNOPQRSTUVWXYZ0123456789_'')"

definition isSpaceChar :: "char \<Rightarrow> bool" where
  "isSpaceChar c =
     (c \<in> set [CHR 0x09, CHR 0x0A, CHR 0x0B, CHR 0x0C, CHR 0x0D, CHR '' '', CHR 0xA0])"

definition isLineTerminator :: "char \<Rightarrow> bool" where
  "isLineTerminator c = (c = CHR 0x0A \<or> c = CHR 0x0D)"

definition trim :: "string \<Rightarrow> string" where
  "trim s = rev (dropWhile isSpaceChar (rev (dropWhile isSpaceChar s)))"

text \<open>A match of the expression is a word from the start, as long as it can be (what
  follows the word is not a word character), then either the end, or white space, as
  long as it can be (what follows it is a hyphen), two hyphens and at least one more
  character up to the end, none of them a line terminator. The result is the word and,
  when they are there, the flags from the two hyphens on.\<close>

definition parseCommand :: "string \<Rightarrow> (string \<times> string option) option" where
  "parseCommand command =
     (let s = trim command;
          cmd = takeWhile isWordChar s;
          rest = dropWhile isWordChar s;
          flags = dropWhile isSpaceChar rest
      in if cmd = [] then None
         else if rest = [] then Some (cmd, None)
         else if takeWhile isSpaceChar rest \<noteq> [] \<and> take 2 flags = ''--''
                 \<and> drop 2 flags \<noteq> [] \<and> \<not> list_ex isLineTerminator (drop 2 flags)
         then Some (cmd, Some flags)
         else None)"

text \<open>A task is nothing, a string, a function (named by a number) or an object with a
  script and, perhaps, arguments; a hook is one task or an array of tasks.\<close>

datatype task =
    TaskUndefined
  | TaskString string
  | TaskFunction nat
  | TaskScript string "string list option"

datatype hook = One task | Many "task list"

text \<open>\<^verbatim>\<open>scripts[name] != null\<close>. Reading a member of \<^verbatim>\<open>scripts\<close> when the manifest has no
  scripts raises.\<close>

definition scripts_has :: "(string \<rightharpoonup> string) option \<Rightarrow> string \<Rightarrow> (error + bool)" where
  "scripts_has scripts name =
     (case scripts of
        None \<Rightarrow> Inl ScriptsUndefined
      | Some sc \<Rightarrow> Inr (sc name \<noteq> None \<or> inherited name))"

text \<open>One turn of the loop of \<^verbatim>\<open>toCommand\<close>. A function that raises gives \<open>Some\<close> of what it
  raised.\<close>

definition run_task :: "sys \<Rightarrow> string \<Rightarrow> (string \<rightharpoonup> string) option \<Rightarrow> task \<Rightarrow> unit io" where
  "run_task sys agent scripts t =
     (case t of
        TaskUndefined \<Rightarrow> return_io ()
      | TaskString str \<Rightarrow>
          (if str = [] then return_io ()
           else case parseCommand str of
             Some (cmd, flags) \<Rightarrow>
               (case scripts_has scripts cmd of
                  Inl e \<Rightarrow> throw_io e
                | Inr True \<Rightarrow>
                    bind_io (dollar sys ['''', '''']
                               [Some (getCommand sys agent ''run''
                                        (filter (\<lambda>v. v \<noteq> [])
                                           (cmd # (case flags of None \<Rightarrow> [] | Some f \<Rightarrow> [f]))))])
                      (\<lambda>_. return_io ())
                | Inr False \<Rightarrow>
                    bind_io (dollar sys ['''', ''''] [Some str]) (\<lambda>_. return_io ()))
           | None \<Rightarrow> throw_io (InvalidTask ''string'' str))
      | TaskFunction n \<Rightarrow>
          (\<lambda>s. let r = callTask sys (trace s) n; s' = emit (CallTask n r) s
               in case r of None \<Rightarrow> (Inr (), s') | Some e \<Rightarrow> (Inl (TaskFailed e), s'))
      | TaskScript script args \<Rightarrow>
          (if script \<noteq> [] then
             (case scripts_has scripts script of
                Inl e \<Rightarrow> throw_io e
              | Inr True \<Rightarrow>
                  bind_io (dollar sys ['''', '''']
                             [Some (getCommand sys agent ''run''
                                      (script # (case args of None \<Rightarrow> [] | Some a \<Rightarrow> a)))])
                    (\<lambda>_. return_io ())
              | Inr False \<Rightarrow> throw_io (MissingScript script))
           else throw_io (InvalidTask ''object'' ''[object Object]'')))"

fun run_tasks :: "sys \<Rightarrow> string \<Rightarrow> (string \<rightharpoonup> string) option \<Rightarrow> task list \<Rightarrow> unit io" where
  "run_tasks sys agent scripts [] = return_io ()"
| "run_tasks sys agent scripts (t # ts) =
     bind_io (run_task sys agent scripts t) (\<lambda>_. run_tasks sys agent scripts ts)"

text \<open>\<^verbatim>\<open>toCommand(task, agent)\<close> is a function of the scripts.\<close>

definition toCommand :: "sys \<Rightarrow> hook \<Rightarrow> string \<Rightarrow> (string \<rightharpoonup> string) option \<Rightarrow> unit io" where
  "toCommand sys h agent scripts =
     run_tasks sys agent scripts (case h of One t \<Rightarrow> [t] | Many ts \<Rightarrow> ts)"

subsection \<open>Overrides\<close>

text \<open>The value of an override is a string or a boolean. An object is the list of its
  entries in the order of its keys; \<^verbatim>\<open>Object.fromEntries\<close> sets the keys one after the
  other, and spreading an object into a block sets each of its keys there.\<close>

datatype override_value = OvString string | OvBoolean bool

type_synonym overrides = "(string \<times> override_value) list"

definition isLocalOverride :: "sys \<Rightarrow> event list \<Rightarrow> string \<Rightarrow> error + bool" where
  "isLocalOverride sys hist v =
     (if CHR ''/'' \<notin> set v \<or> prefix ''@'' v then Inr False
      else case lstatSync sys hist v of
             IsDirectory \<Rightarrow> Inr True
           | NotDirectory \<Rightarrow> Inr False
           | ENOENT \<Rightarrow> Inr False
           | LstatError code \<Rightarrow> Inl (LstatFailed code))"

definition useFileProtocol :: "sys \<Rightarrow> event list \<Rightarrow> string \<Rightarrow> error + string" where
  "useFileProtocol sys hist v =
     (case isLocalOverride sys hist v of
        Inl e \<Rightarrow> Inl e
      | Inr True \<Rightarrow> Inr (''file:'' @ path_resolve sys (process_cwd sys) v)
      | Inr False \<Rightarrow> Inr v)"

fun string_entries :: "overrides \<Rightarrow> (string \<times> string) list" where
  "string_entries [] = []"
| "string_entries ((key, OvString v) # es) = (key, v) # string_entries es"
| "string_entries ((key, OvBoolean b) # es) = string_entries es"

fun map_useFileProtocol ::
  "sys \<Rightarrow> event list \<Rightarrow> (string \<times> string) list \<Rightarrow> error + (string \<times> string) list" where
  "map_useFileProtocol sys hist [] = Inr []"
| "map_useFileProtocol sys hist ((key, v) # es) =
     (case useFileProtocol sys hist v of
        Inl e \<Rightarrow> Inl e
      | Inr v' \<Rightarrow>
          (case map_useFileProtocol sys hist es of
             Inl e \<Rightarrow> Inl e
           | Inr es' \<Rightarrow> Inr ((key, v') # es')))"

definition fromEntries :: "(string \<times> 'v) list \<Rightarrow> (string \<times> 'v) list" where
  "fromEntries es = fold (\<lambda>(key, v). AList.update key v) es []"

text \<open>The first statement of \<^verbatim>\<open>applyPackageOverrides\<close>.\<close>

definition sanitizeOverrides :: "sys \<Rightarrow> event list \<Rightarrow> overrides \<Rightarrow> error + (string \<times> string) list" where
  "sanitizeOverrides sys hist ovs =
     (case map_useFileProtocol sys hist (string_entries ovs) of
        Inl e \<Rightarrow> Inl e
      | Inr es \<Rightarrow> Inr (fromEntries es))"

definition block :: "(string \<rightharpoonup> string) option \<Rightarrow> (string \<rightharpoonup> string)" where
  "block b = (case b of None \<Rightarrow> Map.empty | Some m \<Rightarrow> m)"

definition spread :: "(string \<rightharpoonup> string) \<Rightarrow> (string \<times> string) list \<Rightarrow> (string \<rightharpoonup> string)" where
  "spread m ovs = fold (\<lambda>(key, v) m'. m'(key \<mapsto> v)) ovs m"

definition overridePackageManagerVersion :: "sys \<Rightarrow> pkg \<Rightarrow> string \<Rightarrow> (pkg \<times> bool) io" where
  "overridePackageManagerVersion sys p pm =
     bind_io
       (case pkg_packageManager p of
          None \<Rightarrow> dollar sys ['''', '' --version''] [Some pm]
        | Some pmv \<Rightarrow>
            if prefix (pm @ ''@'') pmv then return_io (drop (length pm + 1) pmv)
            else dollar sys ['''', '' --version''] [Some pm])
       (\<lambda>versionInUse.
     bind_io
       (if pm = ''pnpm'' then
          (case semver_eq sys versionInUse ''7.18.0'' of
             None \<Rightarrow> throw_io (InvalidVersion versionInUse)
           | Some b \<Rightarrow> return_io (if b then Some ''7.18.1'' else None))
        else return_io None)
       (\<lambda>overrideWithVersion.
          case overrideWithVersion of
            None \<Rightarrow> return_io (p, False)
          | Some v \<Rightarrow>
              (\<lambda>s. (Inr (p\<lparr>pkg_packageManager := Some (pm @ ''@'' @ v),
                            pkg_engines := Some ((block (pkg_engines p))(pm \<mapsto> v)),
                            pkg_devDependencies :=
                              (case pkg_devDependencies p of
                                 None \<Rightarrow> None
                               | Some d \<Rightarrow>
                                   if member_truthy d pm then Some (assign_member pm v d)
                                   else Some d)\<rparr>,
                         True),
                    emit (Log (''detected '' @ pm @ ''@'' @ versionInUse)) s))))"

text \<open>The loop of the branch of npm, lines 521 to 528:
  \<^verbatim>\<open>if (pkg.dependencies?.[name]) pkg.dependencies[name] = version\<close>, and the same for
  \<^verbatim>\<open>devDependencies\<close>. The test is on the truthiness of what the lookup gives.\<close>

definition patch_block :: "string \<Rightarrow> string \<Rightarrow> (string \<rightharpoonup> string) option \<Rightarrow> (string \<rightharpoonup> string) option" where
  "patch_block name version b =
     (case b of
        None \<Rightarrow> None
      | Some d \<Rightarrow> if member_truthy d name then Some (assign_member name version d) else Some d)"

definition patch_direct :: "string \<times> string \<Rightarrow> pkg \<Rightarrow> pkg" where
  "patch_direct entry p =
     (case entry of (name, version) \<Rightarrow>
        p\<lparr>pkg_dependencies := patch_block name version (pkg_dependencies p),
          pkg_devDependencies := patch_block name version (pkg_devDependencies p)\<rparr>)"

text \<open>The branches on the package manager in \<^verbatim>\<open>applyPackageOverrides\<close>.\<close>

definition mergeOverrides :: "string \<Rightarrow> pkg \<Rightarrow> (string \<times> string) list \<Rightarrow> error + pkg" where
  "mergeOverrides pm p ovs =
     (if pm = ''pnpm'' then
        Inr (p\<lparr>pkg_devDependencies := Some (spread (block (pkg_devDependencies p)) ovs),
               pkg_pnpm := Some (Some (spread
                  (block (case pkg_pnpm p of None \<Rightarrow> None | Some b \<Rightarrow> b)) ovs))\<rparr>)
      else if pm = ''yarn'' then
        Inr (p\<lparr>pkg_resolutions := Some (spread (block (pkg_resolutions p)) ovs)\<rparr>)
      else if pm = ''npm'' then
        Inr (fold patch_direct ovs
               (p\<lparr>pkg_overrides := Some (spread (block (pkg_overrides p)) ovs)\<rparr>))
      else Inl (UnsupportedManager pm))"

definition applyPackageOverrides :: "sys \<Rightarrow> string \<Rightarrow> pkg \<Rightarrow> overrides \<Rightarrow> pkg io" where
  "applyPackageOverrides sys dir p overrides =
     bind_io (\<lambda>s. (sanitizeOverrides sys (trace s) overrides, s)) (\<lambda>ovs.
     bind_io (dollar sys [''git clean -fdxq''] []) (\<lambda>_.
     bind_io (\<lambda>s. (case detect sys (trace s) dir of
                      None \<Rightarrow> Inl (DetectFailed dir)
                    | Some a \<Rightarrow> if a = [] then Inl (DetectFailed dir) else Inr a, s)) (\<lambda>agent.
     let pm = takeWhile (\<lambda>c. c \<noteq> CHR ''@'') agent in
     bind_io (overridePackageManagerVersion sys p pm) (\<lambda>(p1, changed).
     case mergeOverrides pm p1 ovs of
       Inl e \<Rightarrow> throw_io e
     | Inr p2 \<Rightarrow>
         bind_io (\<lambda>s. (Inr (), emit (WritePkg (path_join sys dir ''package.json'') p2) s)) (\<lambda>_.
         bind_io
           (if pm = ''pnpm'' then
              dollar sys [''pnpm install --prefer-frozen-lockfile --strict-peer-dependencies false''] []
            else if pm = ''yarn'' then dollar sys [''yarn install''] []
            else if pm = ''npm'' then dollar sys [''npm install''] []
            else return_io [])
           (\<lambda>_. return_io p2))))))"

subsection \<open>\<^verbatim>\<open>runInRepo\<close>\<close>

record run_options =
  rn_repo :: string
  rn_dir :: "string option"
  rn_branch :: "string option"
  rn_tag :: "string option"
  rn_commit :: "string option"
  rn_workspace :: string
  rn_qwikPath :: string
  rn_verify :: "bool option"
  rn_skipGit :: "bool option"
  rn_release :: "string option"
  rn_agent :: "string option"
  rn_build :: hook
  rn_test :: hook
  rn_beforeInstall :: hook
  rn_beforeBuild :: hook
  rn_beforeTest :: hook
  rn_overrides :: "overrides option"

text \<open>Lines 216 to 224 write the defaults into the object the caller gave.\<close>

definition runInRepo_defaults :: "run_options \<Rightarrow> run_options" where
  "runInRepo_defaults options =
     (let options1 = (if rn_verify options = None then options\<lparr>rn_verify := Some True\<rparr>
                      else options);
          options2 = (if rn_skipGit options1 = None then options1\<lparr>rn_skipGit := Some False\<rparr>
                      else options1)
      in if rn_branch options2 = None then options2\<lparr>rn_branch := Some ''main''\<rparr> else options2)"

definition after_last_slash :: "string \<Rightarrow> string" where
  "after_last_slash repo = rev (takeWhile (\<lambda>c. c \<noteq> CHR ''/'') (rev repo))"

definition hook_truthy :: "hook \<Rightarrow> bool" where
  "hook_truthy h =
     (case h of One TaskUndefined \<Rightarrow> False | One (TaskString str) \<Rightarrow> str \<noteq> [] | _ \<Rightarrow> True)"

text \<open>Lines 240 to 263: the directory, the repository, the agent. A detected agent is
  written into the options of the caller. The result is the directory and the agent.\<close>

definition runInRepo_agent ::
  "sys \<Rightarrow> run_options \<Rightarrow> string \<Rightarrow> state \<Rightarrow> (error + string) \<times> run_options" where
  "runInRepo_agent sys options dir s =
     (case rn_agent options of
        None \<Rightarrow>
          (case detect sys (trace s) dir of
             None \<Rightarrow> (Inl (DetectFailed dir), options)
           | Some detectedAgent \<Rightarrow>
               (if \<not> is_agent sys detectedAgent then Inl (InvalidAgent detectedAgent)
                else Inr detectedAgent,
                options\<lparr>rn_agent := Some detectedAgent\<rparr>))
      | Some agent \<Rightarrow>
          (if \<not> is_agent sys agent then Inl (InvalidAgent agent) else Inr agent, options))"

definition runInRepo_setup ::
  "sys \<Rightarrow> run_options \<Rightarrow> state \<Rightarrow> ((error + string \<times> string) \<times> state) \<times> run_options" where
  "runInRepo_setup sys options s =
     (let dir = path_resolve sys (rn_workspace options)
                  (stringify (js_or (rn_dir options) (Some (after_last_slash (rn_repo options)))));
          (r1, s1) =
            (if rn_skipGit options \<noteq> Some True then
               fst (setupRepo sys
                      \<lparr>ro_repo = rn_repo options, ro_dir = Some dir, ro_branch = rn_branch options,
                       ro_tag = rn_tag options, ro_commit = rn_commit options, ro_shallow = None\<rparr> s)
             else (Inr (), cd sys dir s))
      in case r1 of
           Inl e \<Rightarrow> ((Inl e, s1), options)
         | Inr u \<Rightarrow>
             (case runInRepo_agent sys options dir s1 of
                (Inl e, options') \<Rightarrow> ((Inl e, s1), options')
              | (Inr agent, options') \<Rightarrow> ((Inr (dir, agent), s1), options')))"

text \<open>The build, with its hook before it, and the test, with its hook before it.\<close>

definition run_build :: "sys \<Rightarrow> run_options \<Rightarrow> string \<Rightarrow> (string \<rightharpoonup> string) option \<Rightarrow> unit io" where
  "run_build sys options agent scripts =
     bind_io (toCommand sys (rn_beforeBuild options) agent scripts) (\<lambda>_.
     toCommand sys (rn_build options) agent scripts)"

definition run_test :: "sys \<Rightarrow> run_options \<Rightarrow> string \<Rightarrow> (string \<rightharpoonup> string) option \<Rightarrow> unit io" where
  "run_test sys options agent scripts =
     bind_io (toCommand sys (rn_beforeTest options) agent scripts) (\<lambda>_.
     toCommand sys (rn_test options) agent scripts)"

text \<open>Lines 272 to 284: the manifest is read, the hook before the install runs, and, when
  \<^verbatim>\<open>verify && test\<close>, the frozen install, the build and the test. The result is the manifest.\<close>

definition runInRepo_verify :: "sys \<Rightarrow> run_options \<Rightarrow> string \<Rightarrow> string \<Rightarrow> pkg io" where
  "runInRepo_verify sys options dir agent =
     bind_io (\<lambda>s. (case readPkg sys (trace s) (path_join sys dir ''package.json'') of
                      None \<Rightarrow> Inl (ReadFailed (path_join sys dir ''package.json''))
                    | Some p \<Rightarrow> Inr p, s)) (\<lambda>p.
     bind_io (toCommand sys (rn_beforeInstall options) agent (pkg_scripts p)) (\<lambda>_.
     bind_io
       (if rn_verify options = Some True \<and> hook_truthy (rn_test options) then
          bind_io (dollar sys ['''', ''''] [Some (getCommand sys agent ''frozen'' [])]) (\<lambda>_.
          bind_io (run_build sys options agent (pkg_scripts p)) (\<lambda>_.
          run_test sys options agent (pkg_scripts p)))
        else return_io ())
       (\<lambda>_. return_io p)))"

text \<open>Lines 285 to 301. The release goes to the key \<^verbatim>\<open>vite\<close> of the overrides; without a
  release the three packages of the core library get their local paths unless they have a
  truthy value already. The result is the overrides object after the assignments.\<close>

definition ov_truthy :: "override_value option \<Rightarrow> bool" where
  "ov_truthy v =
     (case v of None \<Rightarrow> False | Some (OvString x) \<Rightarrow> x \<noteq> [] | Some (OvBoolean b) \<Rightarrow> b)"

definition ov_print :: "override_value option \<Rightarrow> string" where
  "ov_print v =
     (case v of None \<Rightarrow> ''undefined'' | Some (OvString x) \<Rightarrow> x
      | Some (OvBoolean b) \<Rightarrow> (if b then ''true'' else ''false''))"

definition or_assign :: "string \<Rightarrow> string \<Rightarrow> overrides \<Rightarrow> overrides" where
  "or_assign key v ovs =
     (if ov_truthy (map_of ovs key) then ovs else AList.update key (OvString v) ovs)"

definition runInRepo_overrides :: "run_options \<Rightarrow> error + overrides" where
  "runInRepo_overrides options =
     (let overrides = (case rn_overrides options of None \<Rightarrow> [] | Some ovs \<Rightarrow> ovs)
      in if truthy (rn_release options) then
           (let release = stringify (rn_release options)
            in if ov_truthy (map_of overrides ''vite'')
                  \<and> map_of overrides ''vite'' \<noteq> Some (OvString release)
               then Inl (ConflictingOverrides (ov_print (map_of overrides ''vite'')) release)
               else Inr (AList.update ''vite'' (OvString release) overrides))
         else
           Inr (or_assign ''eslint-plugin-qwik''
                  (rn_qwikPath options @ ''/packages/eslint-plugin-qwik'')
               (or_assign ''@builder.io/qwik-city''
                  (rn_qwikPath options @ ''/packages/qwik-city'')
               (or_assign ''@builder.io/qwik''
                  (rn_qwikPath options @ ''/packages/qwik'') overrides))))"

text \<open>Lines 285 to 309: the overrides are settled, applied, and the build and the test run
  on the overridden manifest. The overrides object is the caller's when the caller gave
  one, so the assignments show there.\<close>

definition runInRepo_apply ::
  "sys \<Rightarrow> run_options \<Rightarrow> string \<Rightarrow> string \<Rightarrow> pkg \<Rightarrow> state
     \<Rightarrow> ((error + string) \<times> state) \<times> run_options" where
  "runInRepo_apply sys options dir agent p s =
     (case runInRepo_overrides options of
        Inl e \<Rightarrow> ((Inl e, s), options)
      | Inr overrides \<Rightarrow>
          (bind_io (applyPackageOverrides sys dir p overrides) (\<lambda>p'.
           bind_io (run_build sys options agent (pkg_scripts p')) (\<lambda>_.
           bind_io (if hook_truthy (rn_test options)
                    then run_test sys options agent (pkg_scripts p') else return_io ())
             (\<lambda>_. return_io dir))) s,
           if rn_overrides options = None then options
           else options\<lparr>rn_overrides := Some overrides\<rparr>))"

text \<open>\<^verbatim>\<open>runInRepo\<close> returns the directory; the second component is the options object
  after the call.\<close>

definition runInRepo ::
  "sys \<Rightarrow> run_options \<Rightarrow> state \<Rightarrow> ((error + string) \<times> state) \<times> run_options" where
  "runInRepo sys options0 s =
     (let options = runInRepo_defaults options0
      in case runInRepo_setup sys options s of
           ((Inl e, s1), options1) \<Rightarrow> ((Inl e, s1), options1)
         | ((Inr (dir, agent), s1), options1) \<Rightarrow>
             (case runInRepo_verify sys options1 dir agent s1 of
                (Inl e, s2) \<Rightarrow> ((Inl e, s2), options1)
              | (Inr p, s2) \<Rightarrow> runInRepo_apply sys options1 dir agent p s2))"

subsection \<open>\<^verbatim>\<open>bisectQwik\<close>\<close>

text \<open>The probe answers from the events so far and the working directory; it says what
  it returned or raised and where it left the working directory.\<close>

type_synonym probe = "event list \<Rightarrow> string \<Rightarrow> probe_result \<times> string"

definition resetChanges :: "sys \<Rightarrow> string io" where
  "resetChanges sys = dollar sys [''git reset --hard HEAD''] []"

text \<open>\<^verbatim>\<open>commitMsg.match(/^(?:release|docs)[:(]/)\<close>.\<close>

definition isNonCodeCommit :: "string \<Rightarrow> bool" where
  "isNonCodeCommit commitMsg =
     (prefix ''release:'' commitMsg \<or> prefix ''release('' commitMsg
      \<or> prefix ''docs:'' commitMsg \<or> prefix ''docs('' commitMsg)"

text \<open>\<^verbatim>\<open>toLowerCase\<close> on the letters of ASCII; no other character becomes a letter of
  \<^verbatim>\<open>bisecting:\<close>.\<close>

definition toLowerCase :: "string \<Rightarrow> string" where
  "toLowerCase str =
     map (\<lambda>c. case map_of (zip ''ABCDEFGHIJKLMNOPQRSTUVWXYZ'' ''abcdefghijklmnopqrstuvwxyz'') c of
                 None \<Rightarrow> c | Some l \<Rightarrow> l) str"

text \<open>The loop, with a bound on the number of turns: \<open>None\<close> says that the bound was
  reached with the loop still running, \<open>Some\<close> holds how the loop ended.\<close>

fun bisect_loop :: "nat \<Rightarrow> sys \<Rightarrow> probe \<Rightarrow> state \<Rightarrow> (error + unit) option \<times> state" where
  "bisect_loop 0 sys runSuite s = (None, s)"
| "bisect_loop (Suc n) sys runSuite s =
     (case dollar sys [''git log -1 --format=%s''] [] s of
        (Inl e, s1) \<Rightarrow> (Some (Inl e), s1)
      | (Inr commitMsg, s1) \<Rightarrow>
          if isNonCodeCommit commitMsg then
            (case dollar sys [''git bisect skip''] [] s1 of
               (Inl e, s2) \<Rightarrow> (Some (Inl e), s2)
             | (Inr out, s2) \<Rightarrow> bisect_loop n sys runSuite s2)
          else
            (let (res, cwd') = runSuite (trace s1) (cwd s1);
                 s2 = emit (Probe res) (s1\<lparr>cwd := cwd'\<rparr>)
             in case res of
                  ProbeThrows e \<Rightarrow> (Some (Inl (ProbeRaised e)), s2)
                | _ \<Rightarrow>
                  (case resetChanges sys (cd sys (qwikPath s2) s2) of
                     (Inl e, s3) \<Rightarrow> (Some (Inl e), s3)
                   | (Inr out, s3) \<Rightarrow>
                       (case dollar sys [''git bisect '', '''']
                               [Some (if res = ProbeVoid then ''good'' else ''bad'')] s3 of
                          (Inl e, s4) \<Rightarrow> (Some (Inl e), s4)
                        | (Inr bisectOut, s4) \<Rightarrow>
                            if toLowerCase (take 10 bisectOut) = ''bisecting:''
                            then bisect_loop n sys runSuite s4
                            else (Some (Inr ()), s4)))))"

text \<open>The body of the \<^verbatim>\<open>try\<close>.\<close>

definition bisect_body :: "nat \<Rightarrow> sys \<Rightarrow> string \<Rightarrow> probe \<Rightarrow> state \<Rightarrow> (error + unit) option \<times> state" where
  "bisect_body fuel sys good runSuite s =
     (case bind_io (resetChanges sys) (\<lambda>_.
           bind_io (dollar sys [''git bisect start''] []) (\<lambda>_.
           bind_io (dollar sys [''git bisect bad''] []) (\<lambda>_.
           dollar sys [''git bisect good '', ''''] [Some good]))) (cd sys (qwikPath s) s) of
        (Inl e, s1) \<Rightarrow> (Some (Inl e), s1)
      | (Inr out, s1) \<Rightarrow> bisect_loop fuel sys runSuite s1)"

text \<open>\<^verbatim>\<open>try { body } catch (e) { handler }\<close> and \<^verbatim>\<open>try { body } finally { cleanup }\<close>: the
  handler runs on what the body raised; the cleanup runs however the body ended, and
  what the cleanup raises replaces the outcome of the body.\<close>

definition try_catch :: "'a io \<Rightarrow> (error \<Rightarrow> 'a io) \<Rightarrow> 'a io" where
  "try_catch body handler s = (case body s of (Inl e, s') \<Rightarrow> handler e s' | (Inr a, s') \<Rightarrow> (Inr a, s'))"

definition try_finally :: "'a io \<Rightarrow> unit io \<Rightarrow> 'a io" where
  "try_finally body cleanup s =
     (case body s of (r, s') \<Rightarrow>
        (case cleanup s' of (Inl e, s'') \<Rightarrow> (Inl e, s'') | (Inr u, s'') \<Rightarrow> (r, s'')))"

definition console_log :: "string \<Rightarrow> unit io" where
  "console_log msg s = (Inr (), emit (Log msg) s)"

definition bisect_reset :: "sys \<Rightarrow> unit io" where
  "bisect_reset sys =
     try_catch
       (\<lambda>s. bind_io (dollar sys [''git bisect reset''] []) (\<lambda>_. return_io ())
              (cd sys (qwikPath s) s))
       (\<lambda>e. console_log ''Error while resetting bisect'')"

text \<open>\<^verbatim>\<open>bisectQwik(good, runSuite)\<close>. While the loop has not ended, nothing after it has
  run.\<close>

definition bisectQwik :: "nat \<Rightarrow> sys \<Rightarrow> string \<Rightarrow> probe \<Rightarrow> state \<Rightarrow> (error + unit) option \<times> state" where
  "bisectQwik fuel sys good runSuite s =
     (case bisect_body fuel sys good runSuite s of
        (None, s1) \<Rightarrow> (None, s1)
      | (Some r, s1) \<Rightarrow>
          (case try_finally
                  (try_catch (\<lambda>s'. (r, s')) (\<lambda>e. console_log ''error while bisecting''))
                  (bisect_reset sys) s1 of
             (r', s2) \<Rightarrow> (Some r', s2)))"

subsection \<open>Reading a trace\<close>

fun commands :: "event list \<Rightarrow> string list" where
  "commands [] = []"
| "commands (Exec cmd opts r # es) = cmd # commands es"
| "commands (ev # es) = commands es"

text \<open>The events that a call added to the trace.\<close>

definition events_since :: "state \<Rightarrow> state \<Rightarrow> event list" where
  "events_since s s' = drop (length (trace s)) (trace s')"

text \<open>The manifests that were written, each with its file, the oldest first.\<close>

fun written_manifests :: "event list \<Rightarrow> (string \<times> pkg) list" where
  "written_manifests [] = []"
| "written_manifests (WritePkg file p # es) = (file, p) # written_manifests es"
| "written_manifests (ev # es) = written_manifests es"

text \<open>The order of the events of a bisection. After a \<^verbatim>\<open>git log -1 --format=%s\<close> that
  printed a subject of a commit without code, the next event is a \<^verbatim>\<open>git bisect skip\<close>; a
  call of the probe comes right after a \<^verbatim>\<open>git log -1 --format=%s\<close> that printed any other
  subject. \<open>chain prev evs\<close> says that the events \<open>evs\<close>, coming after the event \<open>prev\<close>,
  are in that order and do not end on a subject without code.\<close>

definition noncode_log :: "event option \<Rightarrow> bool" where
  "noncode_log prev =
     (case prev of Some (Exec cmd opts (Some msg)) \<Rightarrow> cmd = ''git log -1 --format=%s'' \<and> isNonCodeCommit msg
      | _ \<Rightarrow> False)"

definition code_log :: "event option \<Rightarrow> bool" where
  "code_log prev =
     (case prev of Some (Exec cmd opts (Some msg)) \<Rightarrow> cmd = ''git log -1 --format=%s'' \<and> \<not> isNonCodeCommit msg
      | _ \<Rightarrow> False)"

definition allowed :: "event option \<Rightarrow> event \<Rightarrow> bool" where
  "allowed prev ev =
     (case ev of
        Probe res \<Rightarrow> code_log prev
      | Exec cmd opts r \<Rightarrow> (if noncode_log prev then cmd = ''git bisect skip'' else True)
      | _ \<Rightarrow> \<not> noncode_log prev)"

fun chain :: "event option \<Rightarrow> event list \<Rightarrow> bool" where
  "chain prev [] = (\<not> noncode_log prev)"
| "chain prev (ev # evs) = (allowed prev ev \<and> chain (Some ev) evs)"

definition loop_events :: "event list \<Rightarrow> bool" where
  "loop_events evs = ((\<forall>prev. \<not> noncode_log prev \<longrightarrow> chain prev evs)
                      \<and> ''git bisect reset'' \<notin> set (commands evs))"

text \<open>A shell in which no command fails.\<close>

definition always_succeeds :: "sys \<Rightarrow> bool" where
  "always_succeeds sys = (\<forall>hist cmd opts. execSync sys hist cmd opts \<noteq> None)"

subsection \<open>Collaborators for the examples\<close>

fun removed_dirs :: "event list \<Rightarrow> string list" where
  "removed_dirs [] = []"
| "removed_dirs (RmSync d # es) = d # removed_dirs es"
| "removed_dirs (ev # es) = removed_dirs es"

text \<open>Whether a directory is there, read from the events, the newest first: a clone into it
  that succeeded makes it, a recursive removal takes it away.\<close>

fun dir_present :: "string \<Rightarrow> event list \<Rightarrow> bool" where
  "dir_present p [] = False"
| "dir_present p (RmSync d # es) = (if d = p then False else dir_present p es)"
| "dir_present p (Exec cmd opts r # es) =
     (if r \<noteq> None \<and> prefix ''git -c advice.detachedHead=false clone '' cmd
         \<and> prefix (rev ('' '' @ p)) (rev cmd)
      then True else dir_present p es)"
| "dir_present p (ev # es) = dir_present p es"

text \<open>\<^verbatim>\<open>path.resolve\<close> and \<^verbatim>\<open>path.join\<close> on paths that need no normalising beyond a
  leading \<^verbatim>\<open>./\<close>, and a
  \<^verbatim>\<open>getCommand\<close> that writes the agent, the verb and the arguments one after the other.\<close>

definition resolve_plain :: "string \<Rightarrow> string \<Rightarrow> string" where
  "resolve_plain base p =
     (if take 1 p = ''/'' then p
      else base @ ''/'' @ (if take 2 p = ''./'' then drop 2 p else p))"

definition join_plain :: "string \<Rightarrow> string \<Rightarrow> string" where
  "join_plain a b = a @ ''/'' @ b"

definition run_plain :: "string \<Rightarrow> string \<Rightarrow> string list \<Rightarrow> string" where
  "run_plain agent verb args = agent @ '' '' @ verb @ concat (map (\<lambda>a. '' '' @ a) args)"

text \<open>A shell in which every command succeeds and prints nothing, except
  \<^verbatim>\<open>git ls-remote --get-url\<close>, which prints what its argument says.\<close>

definition shell_sys :: "string \<Rightarrow> sys" where
  "shell_sys remote =
     \<lparr>process_env = Map.empty, process_cwd = ''/ci'', module_dir = ''/ci'',
      execSync = (\<lambda>hist cmd opts. if cmd = ''git ls-remote --get-url'' then Some remote else Some []),
      existsSync = (\<lambda>hist p. dir_present p (rev hist)),
      lstatSync = (\<lambda>hist p. ENOENT),
      readPkg = (\<lambda>hist p. None),
      detect = (\<lambda>hist p. Some ''pnpm''),
      callTask = (\<lambda>hist n. None),
      path_resolve = resolve_plain, path_join = join_plain, getCommand = run_plain,
      is_agent = (\<lambda>a. a \<in> set [''npm'', ''yarn'', ''yarn@berry'', ''pnpm'', ''pnpm@6'', ''bun'']),
      semver_eq = (\<lambda>a b. Some (a = b))\<rparr>"

definition state0 :: state where
  "state0 = \<lparr>cwd = ''/ci'', qwikPath = ''/ci/workspace/qwik'', env = Map.empty, trace = []\<rparr>"

text \<open>The same, with a directory \<^verbatim>\<open>./local-dir\<close> on the disk.\<close>

definition local_dir_sys :: sys where
  "local_dir_sys =
     (shell_sys [])\<lparr>lstatSync := (\<lambda>hist p. if p = ''./local-dir'' then IsDirectory else ENOENT)\<rparr>"

text \<open>A manifest that depends on \<^verbatim>\<open>pkg-x\<close>.\<close>

definition pkg_x_manifest :: pkg where
  "pkg_x_manifest =
     \<lparr>pkg_scripts = Some [''build'' \<mapsto> ''vite build''],
      pkg_dependencies = Some [''pkg-x'' \<mapsto> ''^0.9.0''],
      pkg_devDependencies = Some [''pkg-x'' \<mapsto> ''^0.9.0'', ''vitest'' \<mapsto> ''^1.0.0''],
      pkg_resolutions = None, pkg_overrides = None, pkg_pnpm = None,
      pkg_packageManager = Some ''pnpm@8.15.0'', pkg_engines = None\<rparr>"

text \<open>The options of the suite \<^verbatim>\<open>qwik-image\<close>, with nothing else set.\<close>

definition qwik_image_options :: run_options where
  "qwik_image_options =
     \<lparr>rn_repo = ''qwikdev/qwik-image'', rn_dir = None, rn_branch = Some ''main'',
      rn_tag = None, rn_commit = None, rn_workspace = ''/ci/workspace/qwik-image'',
      rn_qwikPath = ''/ci/workspace/qwik'', rn_verify = None, rn_skipGit = None,
      rn_release = None, rn_agent = None,
      rn_build = One (TaskString ''build --skip-nx-cache''), rn_test = One (TaskString ''test''),
      rn_beforeInstall = One TaskUndefined, rn_beforeBuild = One TaskUndefined,
      rn_beforeTest = One TaskUndefined, rn_overrides = None\<rparr>"

text \<open>A shell in which the manifest can be read.\<close>

definition suite_sys :: sys where
  "suite_sys = (shell_sys [])\<lparr>readPkg := (\<lambda>hist p. Some pkg_x_manifest)\<rparr>"

text \<open>The same shell in a directory where npm is detected, and a manifest that depends on
  \<^verbatim>\<open>pkg-x\<close> with the empty string as its version, which stands for any version.\<close>

definition npm_sys :: sys where
  "npm_sys = (shell_sys [])\<lparr>detect := (\<lambda>hist p. Some ''npm'')\<rparr>"

definition empty_version_manifest :: pkg where
  "empty_version_manifest =
     \<lparr>pkg_scripts = Some [''build'' \<mapsto> ''vite build''],
      pkg_dependencies = Some [''pkg-x'' \<mapsto> ''''],
      pkg_devDependencies = Some [''pkg-x'' \<mapsto> ''^0.9.0''],
      pkg_resolutions = None, pkg_overrides = None, pkg_pnpm = None,
      pkg_packageManager = Some ''npm@10.8.2'', pkg_engines = None\<rparr>"

text \<open>A shell for a bisection: the first commit looked at is a commit of documentation,
  the one after the skip is not; \<^verbatim>\<open>git bisect reset\<close> fails. A suite that fails and a
  suite that raises.\<close>

definition bisect_sys :: sys where
  "bisect_sys =
     (shell_sys [])\<lparr>execSync := (\<lambda>hist cmd opts.
        if cmd = ''git log -1 --format=%s'' then
          (if ''git bisect skip'' \<in> set (commands hist) then Some (''fix: the bug'' @ [CHR 0x0A])
           else Some (''docs: typo'' @ [CHR 0x0A]))
        else if cmd = ''git bisect reset'' then None
        else Some [])\<rparr>"

definition failing_suite :: probe where
  "failing_suite hist dir = (ProbeError ''suite failed'', dir)"

definition raising_suite :: probe where
  "raising_suite hist dir = (ProbeThrows ''suite raised'', dir)"

subsection \<open>The words of the specification\<close>

text \<open>What the specification says a string of an override becomes: a value with a path
  separator, not starting with \<^verbatim>\<open>@\<close>, that names a directory that is there is
  \<^verbatim>\<open>file:\<close> and its absolute path; any other value is left as it is.\<close>

definition spec_sanitized :: "sys \<Rightarrow> event list \<Rightarrow> string \<Rightarrow> string" where
  "spec_sanitized sys hist v =
     (if CHR ''/'' \<in> set v \<and> \<not> prefix ''@'' v \<and> lstatSync sys hist v = IsDirectory
      then ''file:'' @ path_resolve sys (process_cwd sys) v else v)"

section \<open>Properties\<close>

lemmas io_defs = bind_io_def return_io_def throw_io_def Let_def

lemmas proto_defs = inherited_def object_prototype_names_def member_truthy_def
  assign_member_def

lemmas example_defs = shell_sys_def state0_def resolve_plain_def join_plain_def run_plain_def

lemmas setupRepo_defs = setupRepo_def setupRepo_run_def setupRepo_defaults_def
  setupRepo_needClone_def setupRepo_checkout_def truthy_def js_or_def stringify_def
  dollar_def emit_def cd_def events_since_def

lemmas runInRepo_defs = runInRepo_def runInRepo_defaults_def runInRepo_setup_def
  runInRepo_agent_def runInRepo_verify_def runInRepo_apply_def runInRepo_overrides_def
  run_build_def run_test_def toCommand_def run_task_def scripts_has_def proto_defs
  hook_truthy_def
  after_last_slash_def or_assign_def ov_truthy_def applyPackageOverrides_def
  sanitizeOverrides_def fromEntries_def useFileProtocol_def isLocalOverride_def
  overridePackageManagerVersion_def mergeOverrides_def spread_def block_def

subsection \<open>The trace of a call\<close>

lemma trace_emit: "trace (emit ev s) = trace s @ [ev]"
  and cwd_emit: "cwd (emit ev s) = cwd s"
  and qwikPath_emit: "qwikPath (emit ev s) = qwikPath s"
  and trace_cd: "trace (cd sys d s) = trace s"
  by (simp_all add: emit_def cd_def)

lemma commands_append: "commands (xs @ ys) = commands xs @ commands ys"
  by (induction xs rule: commands.induct) simp_all

lemma written_manifests_append:
  "written_manifests (xs @ ys) = written_manifests xs @ written_manifests ys"
  by (induction xs rule: written_manifests.induct) simp_all


lemma bind_io_Inr:
  assumes "bind_io m f s = (Inr b, s')"
  obtains a s1 where "m s = (Inr a, s1)" and "f a s1 = (Inr b, s')"
  using assms by (auto simp: bind_io_def split: prod.splits sum.splits)

lemma dollar_always_succeeds:
  assumes "always_succeeds sys"
  shows "dollar sys l v s =
    (Inr (the (execSync sys (trace s) (template l v)
                 \<lparr>opt_cwd = cwd s, opt_encoding = ''utf-8'', opt_env = None\<rparr>)),
     emit (Exec (template l v) \<lparr>opt_cwd = cwd s, opt_encoding = ''utf-8'', opt_env = None\<rparr>
            (execSync sys (trace s) (template l v)
               \<lparr>opt_cwd = cwd s, opt_encoding = ''utf-8'', opt_env = None\<rparr>)) s)"
  using assms by (auto simp: dollar_def always_succeeds_def Let_def split: option.splits)

lemma dollar_writes_nothing:
  "dollar sys l v s = (r, s1) \<Longrightarrow> written_manifests (trace s1) = written_manifests (trace s)"
  by (auto simp: dollar_def Let_def emit_def written_manifests_append split: option.splits)

subsection \<open>Synchronizing a directory twice\<close>

text \<open>
  C1. Synchronizing a directory that is already synchronized to the same reference should
  find that the remote of the clone is the target, keep the directory and end at the same
  commit. The code compares the target with the output of \<^verbatim>\<open>git ls-remote --get-url\<close> as
  \<^verbatim>\<open>execSync\<close> returned it, and git ends that line with a line feed: run on
  \<^verbatim>\<open>QwikDev/qwik\<close>, the first call clones, and the second call, on the directory the
  first one made, reads \<^verbatim>\<open>https://github.com/QwikDev/qwik.git\<close> followed by a line feed,
  removes the directory and clones again.
\<close>

theorem setupRepo_second_sync_removes_clone:
  "(let sys = shell_sys (''https://github.com/QwikDev/qwik.git'' @ [CHR 0x0A]);
        options = \<lparr>ro_repo = ''QwikDev/qwik'', ro_dir = Some ''/ci/workspace/qwik'',
                    ro_branch = None, ro_tag = None, ro_commit = None, ro_shallow = None\<rparr>;
        ((r1, s1), options1) = setupRepo sys options state0;
        ((r2, s2), options2) = setupRepo sys options s1
    in r1 = Inr () \<and> r2 = Inr () \<and>
       commands (trace s1) =
         [''git -c advice.detachedHead=false clone --depth=1 --no-tags --branch main https://github.com/QwikDev/qwik.git /ci/workspace/qwik'',
          ''git clean -fdxq'', ''git fetch --depth=1 --no-tags origin main'',
          ''git -c advice.detachedHead=false checkout main''] \<and>
       removed_dirs (trace s1) = [] \<and>
       existsSync sys (trace s1) ''/ci/workspace/qwik'' \<and>
       removed_dirs (events_since s1 s2) = [''/ci/workspace/qwik''] \<and>
       commands (events_since s1 s2) =
         [''git ls-remote --get-url'',
          ''git -c advice.detachedHead=false clone --depth=1 --no-tags --branch main https://github.com/QwikDev/qwik.git /ci/workspace/qwik'',
          ''git clean -fdxq'', ''git fetch --depth=1 --no-tags origin main'',
          ''git -c advice.detachedHead=false checkout main''])"
  by (simp add: setupRepo_defs io_defs example_defs)

subsection \<open>The environment of a command\<close>

text \<open>
  C3. Every command should run in the environment of the process extended with \<^verbatim>\<open>CI\<close>,
  \<^verbatim>\<open>YARN_ENABLE_IMMUTABLE_INSTALLS\<close>, \<^verbatim>\<open>NODE_OPTIONS\<close> and \<^verbatim>\<open>ECOSYSTEM_CI\<close>.
  \<^verbatim>\<open>setupEnvironment\<close> stores that environment in the variable \<^verbatim>\<open>env\<close> and returns it, but
  \<^verbatim>\<open>$\<close> gives \<^verbatim>\<open>execSync\<close> only \<^verbatim>\<open>cwd\<close> and \<^verbatim>\<open>encoding\<close>: started from a process
  environment without the four variables, a command sees none of them.
\<close>

theorem setupEnvironment_env_not_given_to_commands:
  "(let sys = shell_sys [];
        (ed, s1) = setupEnvironment sys state0;
        (r, s2) = dollar sys [''pnpm run test''] [] s1
    in map (ed_env ed) [''CI'', ''YARN_ENABLE_IMMUTABLE_INSTALLS'', ''NODE_OPTIONS'', ''ECOSYSTEM_CI'']
         = [Some ''true'', Some ''false'', Some ''--max-old-space-size=6144'', Some ''true''] \<and>
       env s1 = ed_env ed \<and>
       map (\<lambda>ev. case ev of
                  Exec cmd opts out \<Rightarrow>
                    (cmd, map (child_env sys opts)
                            [''CI'', ''YARN_ENABLE_IMMUTABLE_INSTALLS'', ''NODE_OPTIONS'', ''ECOSYSTEM_CI''])
                | _ \<Rightarrow> ([], []))
           (events_since s1 s2)
         = [(''pnpm run test'', [None, None, None, None])])"
  by (simp add: setupEnvironment_def initWorkspace_def write_if_missing_def child_env_def
        dollar_def emit_def events_since_def io_defs example_defs)

subsection \<open>Tasks given as strings\<close>

lemmas parse_defs = parseCommand_def trim_def isWordChar_def isSpaceChar_def
  isLineTerminator_def

lemma parseCommand_word_and_flags:
  "parseCommand ''build --flag'' = Some (''build'', Some ''--flag'')"
  by (simp add: parse_defs)

text \<open>A word with flags runs through the package manager when the manifest has the script,
  and as it stands when it has not.\<close>

lemma toCommand_word_and_flags:
  "toCommand sys (One (TaskString ''build --flag'')) agent (Some sc) s =
     (if sc ''build'' \<noteq> None
      then bind_io (dollar sys ['''', '''']
                      [Some (getCommand sys agent ''run'' [''build'', ''--flag''])])
             (\<lambda>_. return_io ()) s
      else bind_io (dollar sys ['''', ''''] [Some ''build --flag'']) (\<lambda>_. return_io ()) s)"
  by (simp add: toCommand_def run_task_def parseCommand_word_and_flags scripts_has_def
        proto_defs io_defs split: prod.splits sum.splits)

text \<open>
  C4. A string of one word and flags runs as a script of the manifest when the manifest
  has it and as a shell command otherwise; a string of several words without flags is
  no script and should run as a shell command. The first part is what \<^verbatim>\<open>toCommand\<close> does.
  For the second, \<^verbatim>\<open>parseCommand\<close> returns null on \<^verbatim>\<open>build test foo bar\<close>, as its comment
  says, but then no branch of \<^verbatim>\<open>toCommand\<close> takes the string: the last one raises
  \<^verbatim>\<open>invalid task, expected string or function but got string\<close>, whatever the scripts
  are, and no command runs. The same happens to \<^verbatim>\<open>build.qwik-ci\<close>, the build of one of the
  suites of the repository.
\<close>

theorem toCommand_rejects_string_of_several_words:
  "parseCommand ''build test foo bar'' = None \<and>
   toCommand sys (One (TaskString ''build test foo bar'')) agent scripts s
     = (Inl (InvalidTask ''string'' ''build test foo bar''), s) \<and>
   toCommand sys (One (TaskString ''build.qwik-ci'')) agent scripts s
     = (Inl (InvalidTask ''string'' ''build.qwik-ci''), s)"
  by (simp add: toCommand_def run_task_def parse_defs io_defs)

subsection \<open>Sanitizing the overrides\<close>

lemma useFileProtocol_spec:
  assumes "CHR ''/'' \<in> set v \<and> \<not> prefix ''@'' v
             \<longrightarrow> (\<forall>code. lstatSync sys hist v \<noteq> LstatError code)"
  shows "useFileProtocol sys hist v = Inr (spec_sanitized sys hist v)"
  using assms
  by (auto simp: useFileProtocol_def isLocalOverride_def spec_sanitized_def
        split: lstat_result.splits)

lemma map_useFileProtocol_spec:
  assumes "\<forall>(key, v) \<in> set es. CHR ''/'' \<in> set v \<and> \<not> prefix ''@'' v
             \<longrightarrow> (\<forall>code. lstatSync sys hist v \<noteq> LstatError code)"
  shows "map_useFileProtocol sys hist es
           = Inr (map (\<lambda>(key, v). (key, spec_sanitized sys hist v)) es)"
  using assms
proof (induction es)
  case Nil
  then show ?case by simp
next
  case (Cons e es)
  obtain k v where e: "e = (k, v)" by (cases e)
  from Cons.prems have "useFileProtocol sys hist v = Inr (spec_sanitized sys hist v)"
    by (intro useFileProtocol_spec) (simp add: e)
  moreover from Cons have "map_useFileProtocol sys hist es
      = Inr (map (\<lambda>(key, v). (key, spec_sanitized sys hist v)) es)" by simp
  ultimately show ?case by (simp add: e)
qed

lemma fold_update_fresh:
  "distinct (map fst (acc @ es)) \<Longrightarrow> fold (\<lambda>(key, v). AList.update key v) es acc = acc @ es"
proof (induction es arbitrary: acc)
  case Nil
  then show ?case by simp
next
  case (Cons e es)
  obtain k v where e: "e = (k, v)" by (cases e)
  from Cons.prems have "k \<notin> fst ` set acc" by (auto simp: e)
  then have "AList.update k v acc = acc @ [(k, v)]"
    by (induction acc) auto
  with Cons show ?case by (simp add: e)
qed

lemma fromEntries_distinct: "distinct (map fst es) \<Longrightarrow> fromEntries es = es"
  using fold_update_fresh [of "[]" es] by (simp add: fromEntries_def)

lemma string_entries_keys: "set (map fst (string_entries ovs)) \<subseteq> set (map fst ovs)"
  by (induction ovs rule: string_entries.induct) auto

lemma string_entries_distinct:
  "distinct (map fst ovs) \<Longrightarrow> distinct (map fst (string_entries ovs))"
  using string_entries_keys by (induction ovs rule: string_entries.induct) auto

lemma string_entries_set:
  "(key, v) \<in> set (string_entries ovs) \<longleftrightarrow> (key, OvString v) \<in> set ovs"
  by (induction ovs rule: string_entries.induct) auto

lemma map_of_string_entries:
  "distinct (map fst ovs) \<Longrightarrow> map_of (string_entries ovs) key =
     (case map_of ovs key of Some (OvString v) \<Rightarrow> Some v | _ \<Rightarrow> None)"
proof (induction ovs rule: string_entries.induct)
  case 1
  then show ?case by simp
next
  case (2 k v es)
  then show ?case by simp
next
  case (3 k b es)
  have "k \<notin> fst ` set (string_entries es)" using 3(2) string_entries_keys [of es] by auto
  then have "map_of (string_entries es) k = None" by (simp add: map_of_eq_None_iff)
  moreover from 3(2) have "map_of es k = None" by (simp add: map_of_eq_None_iff)
  ultimately show ?case using 3 by simp
qed

text \<open>
  C5. Sanitizing an override set drops the values that are not strings, rewrites a string
  with a path separator, not starting with \<^verbatim>\<open>@\<close>, that names a directory that is there to
  \<^verbatim>\<open>file:\<close> and its absolute path, and leaves every other string as it is. The keys of an
  object are distinct. \<^verbatim>\<open>isLocalOverride\<close> raises again what \<^verbatim>\<open>lstatSync\<close> raises, unless it
  is \<^verbatim>\<open>ENOENT\<close>: the statement is for a disk on which looking at the path-like values
  raises nothing else.
\<close>

theorem sanitizeOverrides_drops_and_rewrites:
  assumes "distinct (map fst ovs)"
    and "\<forall>key v code. (key, OvString v) \<in> set ovs \<and> CHR ''/'' \<in> set v \<and> \<not> prefix ''@'' v
           \<longrightarrow> lstatSync sys hist v \<noteq> LstatError code"
  shows "\<exists>san. sanitizeOverrides sys hist ovs = Inr san \<and>
           (\<forall>key. map_of san key =
              (case map_of ovs key of
                 Some (OvString v) \<Rightarrow>
                   Some (if CHR ''/'' \<in> set v \<and> \<not> prefix ''@'' v
                            \<and> lstatSync sys hist v = IsDirectory
                         then ''file:'' @ path_resolve sys (process_cwd sys) v else v)
               | _ \<Rightarrow> None))"
proof -
  let ?es = "string_entries ovs"
  let ?san = "map (\<lambda>(key, v). (key, spec_sanitized sys hist v)) ?es"
  have ok: "\<forall>(key, v) \<in> set ?es. CHR ''/'' \<in> set v \<and> \<not> prefix ''@'' v
             \<longrightarrow> (\<forall>code. lstatSync sys hist v \<noteq> LstatError code)"
    using assms(2) by (auto simp: string_entries_set)
  have keys: "map fst ?san = map fst ?es" by (induction ?es) auto
  have "distinct (map fst ?san)"
    using string_entries_distinct [OF assms(1)] by (simp only: keys)
  then have "sanitizeOverrides sys hist ovs = Inr ?san"
    by (simp add: sanitizeOverrides_def map_useFileProtocol_spec [OF ok] fromEntries_distinct)
  moreover have "map_of ?san key =
      (case map_of ovs key of
         Some (OvString v) \<Rightarrow> Some (spec_sanitized sys hist v)
       | _ \<Rightarrow> None)" for key
    by (simp add: map_of_map map_of_string_entries [OF assms(1)]
          split: option.splits override_value.splits)
  ultimately show ?thesis unfolding spec_sanitized_def by simp
qed

theorem sanitizeOverrides_drops_and_rewrites_witness:
  "\<exists>san. sanitizeOverrides local_dir_sys []
            [(''a'', OvString ''1.2.3''), (''b'', OvBoolean True), (''c'', OvString ''./local-dir'')]
          = Inr san
        \<and> map_of san ''a'' = Some ''1.2.3'' \<and> map_of san ''b'' = None
        \<and> map_of san ''c'' = Some ''file:/ci/local-dir''"
proof -
  let ?ovs = "[(''a'', OvString ''1.2.3''), (''b'', OvBoolean True), (''c'', OvString ''./local-dir'')]"
  have d: "distinct (map fst ?ovs)" by simp
  have l: "\<forall>key v code. (key, OvString v) \<in> set ?ovs \<and> CHR ''/'' \<in> set v \<and> \<not> prefix ''@'' v
             \<longrightarrow> lstatSync local_dir_sys [] v \<noteq> LstatError code"
    by (simp add: local_dir_sys_def)
  from sanitizeOverrides_drops_and_rewrites [OF d l]
  obtain san where san: "sanitizeOverrides local_dir_sys [] ?ovs = Inr san"
    and at: "\<And>key. map_of san key =
              (case map_of ?ovs key of
                 Some (OvString v) \<Rightarrow>
                   Some (if CHR ''/'' \<in> set v \<and> \<not> prefix ''@'' v
                            \<and> lstatSync local_dir_sys [] v = IsDirectory
                         then ''file:'' @ path_resolve local_dir_sys (process_cwd local_dir_sys) v
                         else v)
               | _ \<Rightarrow> None)"
    by blast
  have "map_of san ''a'' = Some ''1.2.3''" "map_of san ''b'' = None"
       "map_of san ''c'' = Some ''file:/ci/local-dir''"
    by (simp_all add: at local_dir_sys_def example_defs)
  with san show ?thesis by blast
qed

subsection \<open>Merging the overrides into the manifest\<close>

lemma block_Some: "block (Some m) = m"
  by (simp add: block_def)

lemma spread_Cons: "spread m ((k, v) # es) = spread (m(k \<mapsto> v)) es"
  by (simp add: spread_def)

lemma spread_other: "name \<notin> fst ` set ovs \<Longrightarrow> spread m ovs name = m name"
  by (induction ovs arbitrary: m) (auto simp: spread_def)

lemma spread_entry:
  "distinct (map fst ovs) \<Longrightarrow> (name, version) \<in> set ovs \<Longrightarrow> spread m ovs name = Some version"
proof (induction ovs arbitrary: m)
  case Nil
  then show ?case by simp
next
  case (Cons e es)
  obtain k v where e: "e = (k, v)" by (cases e)
  show ?case
  proof (cases "(name, version) = (k, v)")
    case True
    with Cons.prems have "name \<notin> fst ` set es" by (auto simp: e)
    then show ?thesis using True by (simp add: e spread_Cons spread_other)
  next
    case False
    with Cons.prems have "(name, version) \<in> set es" "distinct (map fst es)" by (auto simp: e)
    then show ?thesis using Cons.IH by (simp add: e spread_Cons)
  qed
qed

lemma fold_patch_direct:
  "pkg_overrides (fold patch_direct ovs p) = pkg_overrides p"
  "pkg_resolutions (fold patch_direct ovs p) = pkg_resolutions p"
  "pkg_pnpm (fold patch_direct ovs p) = pkg_pnpm p"
  "pkg_dependencies (fold patch_direct ovs p)
     = fold (\<lambda>(name, version). patch_block name version) ovs (pkg_dependencies p)"
  "pkg_devDependencies (fold patch_direct ovs p)
     = fold (\<lambda>(name, version). patch_block name version) ovs (pkg_devDependencies p)"
  by (induction ovs arbitrary: p) (auto simp: patch_direct_def)

lemma fold_patch_block_other:
  "name \<notin> fst ` set ovs \<Longrightarrow>
     \<exists>d'. fold (\<lambda>(name, version). patch_block name version) ovs (Some d) = Some d'
          \<and> d' name = d name"
proof (induction ovs arbitrary: d)
  case Nil
  then show ?case by simp
next
  case (Cons e es)
  obtain k v where e: "e = (k, v)" by (cases e)
  from Cons.prems have "k \<noteq> name" by (auto simp: e)
  then obtain d1 where d1: "patch_block k v (Some d) = Some d1" "d1 name = d name"
    by (cases "member_truthy d k") (simp_all add: patch_block_def assign_member_def)
  from Cons.prems have "name \<notin> fst ` set es" by simp
  with Cons.IH [of d1] d1 show ?case by (simp add: e)
qed

lemma fold_patch_block_own:
  "distinct (map fst ovs) \<Longrightarrow> (name, version) \<in> set ovs \<Longrightarrow> d name = Some v0 \<Longrightarrow>
     \<exists>d'. fold (\<lambda>(name, version). patch_block name version) ovs (Some d) = Some d'
          \<and> d' name = Some (if v0 = [] then [] else version)"
proof (induction ovs arbitrary: d)
  case Nil
  then show ?case by simp
next
  case (Cons e es)
  obtain k v where e: "e = (k, v)" by (cases e)
  show ?case
  proof (cases "(name, version) = (k, v)")
    case True
    with Cons.prems have notin: "name \<notin> fst ` set es" by (auto simp: e)
    have "patch_block k v (Some d) = Some (if v0 = [] then d else d(name \<mapsto> version))"
      using True Cons.prems by (simp add: patch_block_def member_truthy_def assign_member_def)
    with fold_patch_block_other [OF notin, of "if v0 = [] then d else d(name \<mapsto> version)"]
    show ?thesis using Cons.prems(3) by (auto simp: e)
  next
    case False
    with Cons.prems have rest: "distinct (map fst es)" "(name, version) \<in> set es"
      and "k \<noteq> name"
      by (auto simp: e rev_image_eqI)
    from \<open>k \<noteq> name\<close> obtain d1 where d1: "patch_block k v (Some d) = Some d1" "d1 name = d name"
      by (cases "member_truthy d k") (simp_all add: patch_block_def assign_member_def)
    with Cons.prems have "d1 name = Some v0" by simp
    with Cons.IH [of d1] rest d1 show ?thesis by (simp add: e)
  qed
qed

lemma mergeOverrides_entry:
  assumes "distinct (map fst ovs)" and "(name, version) \<in> set ovs"
    and "mergeOverrides pm p ovs = Inr p'"
  shows "pm = ''pnpm'' \<Longrightarrow>
           block (pkg_devDependencies p') name = Some version
           \<and> (\<exists>b. pkg_pnpm p' = Some (Some b) \<and> b name = Some version)"
    and "pm = ''yarn'' \<Longrightarrow>
           block (pkg_resolutions p') name = Some version
           \<and> pkg_dependencies p' = pkg_dependencies p
           \<and> pkg_devDependencies p' = pkg_devDependencies p
           \<and> pkg_overrides p' = pkg_overrides p \<and> pkg_pnpm p' = pkg_pnpm p"
    and "pm = ''npm'' \<Longrightarrow>
           block (pkg_overrides p') name = Some version
           \<and> (\<forall>d v0. pkg_dependencies p = Some d \<and> d name = Some v0
                 \<longrightarrow> block (pkg_dependencies p') name = Some (if v0 = [] then [] else version))
           \<and> (\<forall>d v0. pkg_devDependencies p = Some d \<and> d name = Some v0
                 \<longrightarrow> block (pkg_devDependencies p') name = Some (if v0 = [] then [] else version))
           \<and> pkg_resolutions p' = pkg_resolutions p \<and> pkg_pnpm p' = pkg_pnpm p"
    and "pm = ''pnpm'' \<or> pm = ''yarn'' \<or> pm = ''npm''"
proof -
  note entry = spread_entry [OF assms(1,2)]
  have deps: "block (fold (\<lambda>(name, version). patch_block name version) ovs (Some d)) name
                = Some (if v0 = [] then [] else version)" if "d name = Some v0" for d v0
    using fold_patch_block_own [of ovs name version d v0] assms(1,2) that
    by (auto simp: block_def)
  show "pm = ''pnpm'' \<Longrightarrow>
           block (pkg_devDependencies p') name = Some version
           \<and> (\<exists>b. pkg_pnpm p' = Some (Some b) \<and> b name = Some version)"
    using assms(3) by (auto simp: mergeOverrides_def entry block_Some)
  show "pm = ''yarn'' \<Longrightarrow>
           block (pkg_resolutions p') name = Some version
           \<and> pkg_dependencies p' = pkg_dependencies p
           \<and> pkg_devDependencies p' = pkg_devDependencies p
           \<and> pkg_overrides p' = pkg_overrides p \<and> pkg_pnpm p' = pkg_pnpm p"
    using assms(3) by (auto simp: mergeOverrides_def entry block_Some)
  show "pm = ''npm'' \<Longrightarrow>
           block (pkg_overrides p') name = Some version
           \<and> (\<forall>d v0. pkg_dependencies p = Some d \<and> d name = Some v0
                 \<longrightarrow> block (pkg_dependencies p') name = Some (if v0 = [] then [] else version))
           \<and> (\<forall>d v0. pkg_devDependencies p = Some d \<and> d name = Some v0
                 \<longrightarrow> block (pkg_devDependencies p') name = Some (if v0 = [] then [] else version))
           \<and> pkg_resolutions p' = pkg_resolutions p \<and> pkg_pnpm p' = pkg_pnpm p"
    using assms(3) by (auto simp: mergeOverrides_def entry fold_patch_direct deps block_Some)
  show "pm = ''pnpm'' \<or> pm = ''yarn'' \<or> pm = ''npm''"
    using assms(3) by (auto simp: mergeOverrides_def split: if_splits)
qed

lemma fromEntries_keys_distinct: "distinct (map fst (fromEntries es))"
proof -
  have "distinct (map fst al) \<Longrightarrow> distinct (map fst (fold (\<lambda>(key, v). AList.update key v) es al))"
    for al :: "(string \<times> 'a) list"
    by (induction es arbitrary: al) (auto simp: distinct_update)
  then show ?thesis by (simp add: fromEntries_def)
qed

lemma sanitizeOverrides_keys_distinct:
  "sanitizeOverrides sys hist overrides = Inr ovs \<Longrightarrow> distinct (map fst ovs)"
  by (auto simp: sanitizeOverrides_def fromEntries_keys_distinct split: sum.splits)

lemma overridePackageManagerVersion_result:
  assumes "overridePackageManagerVersion sys p pm s = (Inr (p1, changed), s1)"
  shows "written_manifests (trace s1) = written_manifests (trace s)"
    and "pm \<noteq> ''pnpm'' \<Longrightarrow> p1 = p"
    and "pkg_dependencies p1 = pkg_dependencies p"
    and "pkg_resolutions p1 = pkg_resolutions p"
    and "pkg_overrides p1 = pkg_overrides p"
    and "pkg_pnpm p1 = pkg_pnpm p"
proof -
  let ?query = "case pkg_packageManager p of
          None \<Rightarrow> dollar sys ['''', '' --version''] [Some pm]
        | Some pmv \<Rightarrow>
            if prefix (pm @ ''@'') pmv then return_io (drop (length pm + 1) pmv)
            else dollar sys ['''', '' --version''] [Some pm]"
  from assms obtain v sa where q: "?query s = (Inr v, sa)"
    and rest: "bind_io
       (if pm = ''pnpm'' then
          (case semver_eq sys v ''7.18.0'' of
             None \<Rightarrow> throw_io (InvalidVersion v)
           | Some b \<Rightarrow> return_io (if b then Some ''7.18.1'' else None))
        else return_io None)
       (\<lambda>overrideWithVersion.
          case overrideWithVersion of
            None \<Rightarrow> return_io (p, False)
          | Some v' \<Rightarrow>
              (\<lambda>s. (Inr (p\<lparr>pkg_packageManager := Some (pm @ ''@'' @ v'),
                            pkg_engines := Some ((block (pkg_engines p))(pm \<mapsto> v')),
                            pkg_devDependencies :=
                              (case pkg_devDependencies p of
                                 None \<Rightarrow> None
                               | Some d \<Rightarrow>
                                   if member_truthy d pm then Some (assign_member pm v' d)
                                   else Some d)\<rparr>,
                         True),
                    emit (Log (''detected '' @ pm @ ''@'' @ v)) s))) sa = (Inr (p1, changed), s1)"
    unfolding overridePackageManagerVersion_def by (erule bind_io_Inr)
  have wa: "written_manifests (trace sa) = written_manifests (trace s)"
    using q by (auto simp: return_io_def dest: dollar_writes_nothing split: option.splits if_splits)
  from rest obtain ov sb where
    sem: "(if pm = ''pnpm'' then
          (case semver_eq sys v ''7.18.0'' of
             None \<Rightarrow> throw_io (InvalidVersion v)
           | Some b \<Rightarrow> return_io (if b then Some ''7.18.1'' else None))
        else return_io None) sa = (Inr ov, sb)"
    and fin: "(case ov of
            None \<Rightarrow> return_io (p, False)
          | Some v' \<Rightarrow>
              (\<lambda>s. (Inr (p\<lparr>pkg_packageManager := Some (pm @ ''@'' @ v'),
                            pkg_engines := Some ((block (pkg_engines p))(pm \<mapsto> v')),
                            pkg_devDependencies :=
                              (case pkg_devDependencies p of
                                 None \<Rightarrow> None
                               | Some d \<Rightarrow>
                                   if member_truthy d pm then Some (assign_member pm v' d)
                                   else Some d)\<rparr>,
                         True),
                    emit (Log (''detected '' @ pm @ ''@'' @ v)) s))) sb = (Inr (p1, changed), s1)"
    by (erule bind_io_Inr)
  from sem have sb: "sb = sa" and ov: "pm \<noteq> ''pnpm'' \<Longrightarrow> ov = None"
    by (auto simp: return_io_def throw_io_def split: if_splits option.splits)
  show "written_manifests (trace s1) = written_manifests (trace s)"
    using fin wa sb
    by (cases ov) (auto simp: return_io_def emit_def written_manifests_append)
  show "pm \<noteq> ''pnpm'' \<Longrightarrow> p1 = p"
    using fin ov by (auto simp: return_io_def)
  show "pkg_dependencies p1 = pkg_dependencies p" "pkg_resolutions p1 = pkg_resolutions p"
    "pkg_overrides p1 = pkg_overrides p" "pkg_pnpm p1 = pkg_pnpm p"
    using fin by (cases ov; auto simp: return_io_def)+
qed

lemma applyPackageOverrides_result:
  assumes "applyPackageOverrides sys dir p overrides s = (Inr p', s')"
  obtains ovs agent hist p1 where
    "sanitizeOverrides sys (trace s) overrides = Inr ovs"
    and "detect sys hist dir = Some agent"
    and "mergeOverrides (takeWhile (\<lambda>c. c \<noteq> CHR ''@'') agent) p1 ovs = Inr p'"
    and "takeWhile (\<lambda>c. c \<noteq> CHR ''@'') agent \<noteq> ''pnpm'' \<longrightarrow> p1 = p"
    and "written_manifests (trace s')
           = written_manifests (trace s) @ [(path_join sys dir ''package.json'', p')]"
proof -
  note run = assms [unfolded applyPackageOverrides_def]
  from run obtain ovs s0 where
    san: "(sanitizeOverrides sys (trace s) overrides, s) = (Inr ovs, s0)"
    and r1: "bind_io (dollar sys [''git clean -fdxq''] []) (\<lambda>_.
     bind_io (\<lambda>s. (case detect sys (trace s) dir of
                      None \<Rightarrow> Inl (DetectFailed dir)
                    | Some a \<Rightarrow> if a = [] then Inl (DetectFailed dir) else Inr a, s)) (\<lambda>agent.
     let pm = takeWhile (\<lambda>c. c \<noteq> CHR ''@'') agent in
     bind_io (overridePackageManagerVersion sys p pm) (\<lambda>(p1, changed).
     case mergeOverrides pm p1 ovs of
       Inl e \<Rightarrow> throw_io e
     | Inr p2 \<Rightarrow>
         bind_io (\<lambda>s. (Inr (), emit (WritePkg (path_join sys dir ''package.json'') p2) s)) (\<lambda>_.
         bind_io
           (if pm = ''pnpm'' then
              dollar sys [''pnpm install --prefer-frozen-lockfile --strict-peer-dependencies false''] []
            else if pm = ''yarn'' then dollar sys [''yarn install''] []
            else if pm = ''npm'' then dollar sys [''npm install''] []
            else return_io [])
           (\<lambda>_. return_io p2))))) s0 = (Inr p', s')"
    by (erule bind_io_Inr)
  from san have san': "sanitizeOverrides sys (trace s) overrides = Inr ovs" and s0: "s0 = s"
    by auto
  from r1 obtain out sa where
    clean: "dollar sys [''git clean -fdxq''] [] s0 = (Inr out, sa)"
    and r2: "bind_io (\<lambda>s. (case detect sys (trace s) dir of
                      None \<Rightarrow> Inl (DetectFailed dir)
                    | Some a \<Rightarrow> if a = [] then Inl (DetectFailed dir) else Inr a, s)) (\<lambda>agent.
     let pm = takeWhile (\<lambda>c. c \<noteq> CHR ''@'') agent in
     bind_io (overridePackageManagerVersion sys p pm) (\<lambda>(p1, changed).
     case mergeOverrides pm p1 ovs of
       Inl e \<Rightarrow> throw_io e
     | Inr p2 \<Rightarrow>
         bind_io (\<lambda>s. (Inr (), emit (WritePkg (path_join sys dir ''package.json'') p2) s)) (\<lambda>_.
         bind_io
           (if pm = ''pnpm'' then
              dollar sys [''pnpm install --prefer-frozen-lockfile --strict-peer-dependencies false''] []
            else if pm = ''yarn'' then dollar sys [''yarn install''] []
            else if pm = ''npm'' then dollar sys [''npm install''] []
            else return_io [])
           (\<lambda>_. return_io p2)))) sa = (Inr p', s')"
    by (erule bind_io_Inr)
  have wa: "written_manifests (trace sa) = written_manifests (trace s)"
    using dollar_writes_nothing [OF clean] s0 by simp
  define pmof where "pmof = (\<lambda>agent. takeWhile (\<lambda>c. c \<noteq> CHR ''@'') agent)"
  from r2 obtain agent sb where
    det: "(case detect sys (trace sa) dir of
                      None \<Rightarrow> Inl (DetectFailed dir)
                    | Some a \<Rightarrow> if a = [] then Inl (DetectFailed dir) else Inr a, sa) = (Inr agent, sb)"
    and r3: "bind_io (overridePackageManagerVersion sys p (pmof agent)) (\<lambda>(p1, changed).
     case mergeOverrides (pmof agent) p1 ovs of
       Inl e \<Rightarrow> throw_io e
     | Inr p2 \<Rightarrow>
         bind_io (\<lambda>s. (Inr (), emit (WritePkg (path_join sys dir ''package.json'') p2) s)) (\<lambda>_.
         bind_io
           (if pmof agent = ''pnpm'' then
              dollar sys [''pnpm install --prefer-frozen-lockfile --strict-peer-dependencies false''] []
            else if pmof agent = ''yarn'' then dollar sys [''yarn install''] []
            else if pmof agent = ''npm'' then dollar sys [''npm install''] []
            else return_io [])
           (\<lambda>_. return_io p2))) sb = (Inr p', s')"
    unfolding pmof_def Let_def by (erule bind_io_Inr)
  from det have agent: "detect sys (trace sa) dir = Some agent" and sb: "sb = sa"
    by (auto split: option.splits if_splits)
  from r3 obtain pc sc where
    opv: "overridePackageManagerVersion sys p (pmof agent) sb = (Inr pc, sc)"
    and r4: "(case pc of (p1, changed) \<Rightarrow>
     case mergeOverrides (pmof agent) p1 ovs of
       Inl e \<Rightarrow> throw_io e
     | Inr p2 \<Rightarrow>
         bind_io (\<lambda>s. (Inr (), emit (WritePkg (path_join sys dir ''package.json'') p2) s)) (\<lambda>_.
         bind_io
           (if pmof agent = ''pnpm'' then
              dollar sys [''pnpm install --prefer-frozen-lockfile --strict-peer-dependencies false''] []
            else if pmof agent = ''yarn'' then dollar sys [''yarn install''] []
            else if pmof agent = ''npm'' then dollar sys [''npm install''] []
            else return_io [])
           (\<lambda>_. return_io p2))) sc = (Inr p', s')"
    by (erule bind_io_Inr)
  obtain p1 changed where pc: "pc = (p1, changed)" by (cases pc)
  note o = overridePackageManagerVersion_result [OF opv [unfolded pc]]
  from r4 obtain p2 where
    merge: "mergeOverrides (pmof agent) p1 ovs = Inr p2"
    and r5: "bind_io (\<lambda>s. (Inr (), emit (WritePkg (path_join sys dir ''package.json'') p2) s)) (\<lambda>_.
         bind_io
           (if pmof agent = ''pnpm'' then
              dollar sys [''pnpm install --prefer-frozen-lockfile --strict-peer-dependencies false''] []
            else if pmof agent = ''yarn'' then dollar sys [''yarn install''] []
            else if pmof agent = ''npm'' then dollar sys [''npm install''] []
            else return_io [])
           (\<lambda>_. return_io p2)) sc = (Inr p', s')"
    by (cases "mergeOverrides (pmof agent) p1 ovs") (simp_all add: pc throw_io_def)
  from r5 obtain out2 sd where
    inst: "(if pmof agent = ''pnpm'' then
              dollar sys [''pnpm install --prefer-frozen-lockfile --strict-peer-dependencies false''] []
            else if pmof agent = ''yarn'' then dollar sys [''yarn install''] []
            else if pmof agent = ''npm'' then dollar sys [''npm install''] []
            else return_io [])
           (emit (WritePkg (path_join sys dir ''package.json'') p2) sc) = (Inr out2, sd)"
    and fin: "return_io p2 sd = (Inr p', s')"
    by (auto simp: bind_io_def split: prod.splits sum.splits)
  from fin have p': "p' = p2" and s': "s' = sd" by (simp_all add: return_io_def)
  have "written_manifests (trace sd)
          = written_manifests (trace (emit (WritePkg (path_join sys dir ''package.json'') p2) sc))"
    using inst by (auto simp: return_io_def dest: dollar_writes_nothing split: if_splits)
  then have w: "written_manifests (trace s')
          = written_manifests (trace s) @ [(path_join sys dir ''package.json'', p')]"
    using o(1) wa sb by (simp add: s' p' emit_def written_manifests_append)
  have "takeWhile (\<lambda>c. c \<noteq> CHR ''@'') agent \<noteq> ''pnpm'' \<longrightarrow> p1 = p"
    using o(2) by (simp add: pmof_def)
  with that [OF san' agent merge [unfolded p' [symmetric] pmof_def] _ w] show thesis .
qed

text \<open>What a call of \<^verbatim>\<open>applyPackageOverrides\<close> that returns has done: one manifest is written,
  the one that is returned, and each entry of the sanitized overrides is in the blocks of
  the detected manager. Under npm an entry of the same name in \<^verbatim>\<open>dependencies\<close> or in
  \<^verbatim>\<open>devDependencies\<close> takes the version unless its own version is the empty string. With
  any other manager the call raises, and once the cleaning and the query of the version
  have succeeded, the error is that of an unsupported manager.\<close>

lemma applyPackageOverrides_places_entries:
  assumes "applyPackageOverrides sys dir p overrides s = (Inr p', s')"
  shows "\<exists>ovs agent hist.
     sanitizeOverrides sys (trace s) overrides = Inr ovs
     \<and> detect sys hist dir = Some agent
     \<and> written_manifests (trace s')
         = written_manifests (trace s) @ [(path_join sys dir ''package.json'', p')]
     \<and> (\<forall>(name, version) \<in> set ovs.
          let pm = takeWhile (\<lambda>c. c \<noteq> CHR ''@'') agent in
          if pm = ''pnpm'' then
            block (pkg_devDependencies p') name = Some version
            \<and> (\<exists>b. pkg_pnpm p' = Some (Some b) \<and> b name = Some version)
          else if pm = ''yarn'' then
            block (pkg_resolutions p') name = Some version
            \<and> pkg_dependencies p' = pkg_dependencies p
            \<and> pkg_devDependencies p' = pkg_devDependencies p
            \<and> pkg_overrides p' = pkg_overrides p \<and> pkg_pnpm p' = pkg_pnpm p
          else
            pm = ''npm''
            \<and> block (pkg_overrides p') name = Some version
            \<and> (\<forall>d v0. pkg_dependencies p = Some d \<and> d name = Some v0
                  \<longrightarrow> block (pkg_dependencies p') name = Some (if v0 = [] then [] else version))
            \<and> (\<forall>d v0. pkg_devDependencies p = Some d \<and> d name = Some v0
                  \<longrightarrow> block (pkg_devDependencies p') name
                        = Some (if v0 = [] then [] else version)))"
proof -
  from assms obtain ovs agent hist p1 where
    san: "sanitizeOverrides sys (trace s) overrides = Inr ovs"
    and det: "detect sys hist dir = Some agent"
    and merge: "mergeOverrides (takeWhile (\<lambda>c. c \<noteq> CHR ''@'') agent) p1 ovs = Inr p'"
    and same: "takeWhile (\<lambda>c. c \<noteq> CHR ''@'') agent \<noteq> ''pnpm'' \<longrightarrow> p1 = p"
    and w: "written_manifests (trace s')
           = written_manifests (trace s) @ [(path_join sys dir ''package.json'', p')]"
    by (rule applyPackageOverrides_result)
  define pm where "pm = takeWhile (\<lambda>c. c \<noteq> CHR ''@'') agent"
  note dist = sanitizeOverrides_keys_distinct [OF san]
  have "let pm = takeWhile (\<lambda>c. c \<noteq> CHR ''@'') agent in
          if pm = ''pnpm'' then
            block (pkg_devDependencies p') name = Some version
            \<and> (\<exists>b. pkg_pnpm p' = Some (Some b) \<and> b name = Some version)
          else if pm = ''yarn'' then
            block (pkg_resolutions p') name = Some version
            \<and> pkg_dependencies p' = pkg_dependencies p
            \<and> pkg_devDependencies p' = pkg_devDependencies p
            \<and> pkg_overrides p' = pkg_overrides p \<and> pkg_pnpm p' = pkg_pnpm p
          else
            pm = ''npm''
            \<and> block (pkg_overrides p') name = Some version
            \<and> (\<forall>d v0. pkg_dependencies p = Some d \<and> d name = Some v0
                  \<longrightarrow> block (pkg_dependencies p') name = Some (if v0 = [] then [] else version))
            \<and> (\<forall>d v0. pkg_devDependencies p = Some d \<and> d name = Some v0
                  \<longrightarrow> block (pkg_devDependencies p') name
                        = Some (if v0 = [] then [] else version))"
    if "(name, version) \<in> set ovs" for name version
  proof -
    note m = mergeOverrides_entry [OF dist that merge [folded pm_def]]
    consider "pm = ''pnpm''" | "pm \<noteq> ''pnpm''" "pm = ''yarn''"
      | "pm \<noteq> ''pnpm''" "pm \<noteq> ''yarn''" "pm = ''npm''"
      using m(4) by blast
    then show ?thesis
    proof cases
      case 1
      with m(1) show ?thesis by (simp add: pm_def [symmetric])
    next
      case 2
      with m(2) same show ?thesis by (simp add: pm_def [symmetric])
    next
      case 3
      with m(3) same show ?thesis by (auto simp: pm_def [symmetric])
    qed
  qed
  with san det w show ?thesis by blast
qed

lemma applyPackageOverrides_unsupported:
  assumes "always_succeeds sys"
    and "sanitizeOverrides sys (trace s) overrides = Inr ovs"
    and "\<forall>hist. detect sys hist dir = Some agent"
    and "pm = takeWhile (\<lambda>c. c \<noteq> CHR ''@'') agent"
    and "agent \<noteq> []" and "pm \<noteq> ''pnpm''" and "pm \<noteq> ''yarn''" and "pm \<noteq> ''npm''"
  shows "\<exists>s'. applyPackageOverrides sys dir p overrides s = (Inl (UnsupportedManager pm), s')
            \<and> written_manifests (trace s') = written_manifests (trace s)"
  using assms(2,3,5,6,7,8) unfolding assms(4)
  by (cases "pkg_packageManager p")
     (simp_all add: applyPackageOverrides_def overridePackageManagerVersion_def
        dollar_always_succeeds [OF assms(1)] mergeOverrides_def io_defs emit_def
        written_manifests_append)

text \<open>Members that the blocks inherit: a script named \<^verbatim>\<open>constructor\<close> is found in a manifest
  without scripts of that name, and the loop of npm adds \<^verbatim>\<open>toString\<close> to a block that has
  no such entry.\<close>

lemma inherited_members:
  "scripts_has (Some Map.empty) ''constructor'' = Inr True"
  "patch_block ''toString'' ''1.0.0'' (Some Map.empty) = Some [''toString'' \<mapsto> ''1.0.0'']"
  "patch_block ''__proto__'' ''1.0.0'' (Some Map.empty) = Some Map.empty"
  by (simp_all add: scripts_has_def patch_block_def proto_defs)

text \<open>
  C6. Under npm the entry of an override should also go to the entry of the same name of
  \<^verbatim>\<open>dependencies\<close> and of \<^verbatim>\<open>devDependencies\<close>: the comment of the loop says that direct
  dependencies are forced by updating the blocks themselves. The loop finds the entry by
  the truthiness of \<^verbatim>\<open>pkg.dependencies?.[name]\<close>, and the empty string, which is a version
  for npm (any version), is falsy. Here the manifest has \<^verbatim>\<open>pkg-x\<close> in \<^verbatim>\<open>dependencies\<close> with
  the empty version and in \<^verbatim>\<open>devDependencies\<close> with \<^verbatim>\<open>^0.9.0\<close>, npm is detected and the
  override is \<^verbatim>\<open>pkg-x: 1.0.0\<close>. The call returns; the manifest it wrote, which is the one
  it leaves to its caller, has the override in \<^verbatim>\<open>overrides\<close> and in \<^verbatim>\<open>devDependencies\<close>, and
  \<^verbatim>\<open>dependencies\<close> still has the empty version.
\<close>

theorem applyPackageOverrides_leaves_empty_version:
  "(let (r, s') = applyPackageOverrides npm_sys ''/ci/workspace/suite'' empty_version_manifest
                    [(''pkg-x'', OvString ''1.0.0'')] state0
    in case r of
         Inl e \<Rightarrow> False
       | Inr p' \<Rightarrow>
           commands (trace s') = [''git clean -fdxq'', ''npm install'']
           \<and> map (\<lambda>(file, p). (file, block (pkg_overrides p) ''pkg-x'',
                                 block (pkg_devDependencies p) ''pkg-x'',
                                 block (pkg_dependencies p) ''pkg-x''))
                (written_manifests (trace s'))
                = [(''/ci/workspace/suite/package.json'',
                    Some ''1.0.0'', Some ''1.0.0'', Some '''')]
           \<and> block (pkg_overrides p') ''pkg-x'' = Some ''1.0.0''
           \<and> block (pkg_devDependencies p') ''pkg-x'' = Some ''1.0.0''
           \<and> block (pkg_dependencies p') ''pkg-x'' = Some '''')"
  by (simp add: applyPackageOverrides_def sanitizeOverrides_def fromEntries_def
        isLocalOverride_def useFileProtocol_def overridePackageManagerVersion_def
        mergeOverrides_def patch_direct_def patch_block_def proto_defs block_def spread_def
        dollar_def emit_def npm_sys_def empty_version_manifest_def io_defs example_defs)

subsection \<open>A release and an override of the same package\<close>

lemma update_same: "map_of al k = Some v \<Longrightarrow> AList.update k v al = al"
  by (induction al) auto

text \<open>What lines 287 to 294 compare with the release is the entry \<^verbatim>\<open>vite\<close> of the overrides.
  With a truthy entry there, the error of conflicting overrides is raised exactly when the
  entry differs from the release, before anything runs or is written; no other entry is
  looked at.\<close>

lemma release_is_compared_with_vite:
  assumes "rn_release options = Some release" and "release \<noteq> []"
    and "rn_overrides options = Some ovs" and "map_of ovs ''vite'' = Some v"
    and "ov_truthy (Some v)"
  shows "((\<exists>e. runInRepo_overrides options = Inl e) \<longleftrightarrow> v \<noteq> OvString release)
       \<and> (v \<noteq> OvString release \<longrightarrow>
            runInRepo_overrides options = Inl (ConflictingOverrides (ov_print (Some v)) release)
            \<and> runInRepo_apply sys options dir agent p s
                = ((Inl (ConflictingOverrides (ov_print (Some v)) release), s), options))
       \<and> (v = OvString release \<longrightarrow>
            runInRepo_overrides options = Inr ovs
            \<and> runInRepo_apply sys options dir agent p s
                = (bind_io (applyPackageOverrides sys dir p ovs) (\<lambda>p'.
                   bind_io (run_build sys options agent (pkg_scripts p')) (\<lambda>_.
                   bind_io (if hook_truthy (rn_test options)
                            then run_test sys options agent (pkg_scripts p') else return_io ())
                     (\<lambda>_. return_io dir))) s, options))"
proof (cases "v = OvString release")
  case True
  with assms have "runInRepo_overrides options = Inr ovs"
    by (simp add: runInRepo_overrides_def truthy_def stringify_def update_same)
  moreover from assms(3) have "options\<lparr>rn_overrides := Some ovs\<rparr> = options" by simp
  ultimately show ?thesis using True assms(3) by (simp add: runInRepo_apply_def)
next
  case False
  with assms have "runInRepo_overrides options
      = Inl (ConflictingOverrides (ov_print (Some v)) release)"
    by (simp add: runInRepo_overrides_def truthy_def stringify_def)
  then show ?thesis using False by (simp add: runInRepo_apply_def)
qed

lemma release_ignores_other_overrides:
  assumes "rn_release options = Some release" and "release \<noteq> []"
    and "rn_overrides options = Some ovs" and "\<not> ov_truthy (map_of ovs ''vite'')"
  shows "runInRepo_overrides options = Inr (AList.update ''vite'' (OvString release) ovs)"
  using assms by (simp add: runInRepo_overrides_def truthy_def stringify_def)

text \<open>
  C2. The release is a release of the core library: the option \<^verbatim>\<open>--release\<close> is the
  \<^verbatim>\<open>qwik release to use from npm registry\<close>, and without a release the overrides that are
  set are those of \<^verbatim>\<open>@builder.io/qwik\<close> and its companions. A release together with an
  override of that package to another version should raise the error of conflicting
  overrides. Lines 287 to 294, under a note that they are still to be done, compare the
  release with the entry \<^verbatim>\<open>vite\<close> and write it there. So the release \<^verbatim>\<open>1.0.0\<close> with the
  override \<^verbatim>\<open>@builder.io/qwik: 2.0.0\<close> raises nothing: \<^verbatim>\<open>runInRepo\<close> returns the directory,
  and the one manifest it wrote has \<^verbatim>\<open>@builder.io/qwik\<close> at \<^verbatim>\<open>2.0.0\<close> and \<^verbatim>\<open>vite\<close> at \<^verbatim>\<open>1.0.0\<close>.
  The same release with \<^verbatim>\<open>vite: 2.0.0\<close> raises the error, and nothing is written.
\<close>

theorem runInRepo_release_with_other_qwik_override:
  "(let options = qwik_image_options\<lparr>rn_release := Some ''1.0.0'',
                    rn_overrides := Some [(''@builder.io/qwik'', OvString ''2.0.0'')]\<rparr>;
        ((r, s'), options') = runInRepo suite_sys options state0
    in r = Inr ''/ci/workspace/qwik-image/qwik-image''
       \<and> rn_overrides options' = Some [(''@builder.io/qwik'', OvString ''2.0.0''),
                                        (''vite'', OvString ''1.0.0'')]
       \<and> map (\<lambda>(file, p). (file, block (pkg_devDependencies p) ''@builder.io/qwik'',
                                 block (pkg_devDependencies p) ''vite''))
            (written_manifests (trace s'))
          = [(''/ci/workspace/qwik-image/qwik-image/package.json'',
              Some ''2.0.0'', Some ''1.0.0'')])
   \<and> (let options = qwik_image_options\<lparr>rn_release := Some ''1.0.0'',
                        rn_overrides := Some [(''vite'', OvString ''2.0.0'')]\<rparr>;
            ((r, s'), options') = runInRepo suite_sys options state0
        in r = Inl (ConflictingOverrides ''2.0.0'' ''1.0.0'')
           \<and> written_manifests (trace s') = [])"
  by (simp add: runInRepo_defs ov_print_def qwik_image_options_def suite_sys_def
        pkg_x_manifest_def setupRepo_defs parse_defs io_defs example_defs)

subsection \<open>The commands of \<^verbatim>\<open>setupRepo\<close>\<close>








subsection \<open>The options object after a call\<close>









subsection \<open>Bisection\<close>

lemma chain_append:
  "chain prev xs \<Longrightarrow> (\<And>p. \<not> noncode_log p \<Longrightarrow> chain p ys) \<Longrightarrow> chain prev (xs @ ys)"
  by (induction xs arbitrary: prev) auto

lemma dollar_cases:
  obtains (failed) opts where
      "dollar sys l v s = (Inl (CommandFailed (template l v)), emit (Exec (template l v) opts None) s)"
  | (ran) opts out where
      "dollar sys l v s = (Inr out, emit (Exec (template l v) opts (Some out)) s)"
  by (cases "execSync sys (trace s) (template l v)
               \<lparr>opt_cwd = cwd s, opt_encoding = ''utf-8'', opt_env = None\<rparr>")
     (auto simp: dollar_def Let_def)

lemma loop_events_step:
  assumes "trace s' = trace s1 @ evs" "loop_events evs" "trace s1 = trace s @ pre"
    and "\<And>prev. \<not> noncode_log prev \<Longrightarrow> chain prev (pre @ evs)"
    and "''git bisect reset'' \<notin> set (commands pre)"
  shows "\<exists>evs'. trace s' = trace s @ evs' \<and> loop_events evs'"
  using assms by (auto simp: loop_events_def commands_append intro!: exI [of _ "pre @ evs"])

lemma probe_result_case:
  "\<nexists>e. res = ProbeThrows e \<Longrightarrow>
     (case res of ProbeVoid \<Rightarrow> b | ProbeError x \<Rightarrow> b | ProbeThrows e \<Rightarrow> a e) = b"
  by (cases res) auto

lemma bisect_loop_events:
  "bisect_loop fuel sys runSuite s = (r, s') \<Longrightarrow>
     \<exists>evs. trace s' = trace s @ evs \<and> loop_events evs"
proof (induction fuel arbitrary: s r s')
  case 0
  then show ?case by (simp add: loop_events_def)
next
  case (Suc n)
  note step = Suc.prems
  show ?case
  proof (cases rule: dollar_cases [of sys "[''git log -1 --format=%s'']" "[]" s])
    case (failed opts)
    then have "bisect_loop (Suc n) sys runSuite s
        = (Some (Inl (CommandFailed ''git log -1 --format=%s'')),
           emit (Exec ''git log -1 --format=%s'' opts None) s)"
      by simp
    from step [unfolded this, symmetric]
    have "s' = emit (Exec ''git log -1 --format=%s'' opts None) s"
      by (simp only: prod.inject)
    then have "trace s' = trace s @ [Exec ''git log -1 --format=%s'' opts None]"
      by (simp add: trace_emit)
    then show ?thesis
      by (auto simp: loop_events_def allowed_def noncode_log_def)
  next
    case ran: (ran opts commitMsg)
    let ?e1 = "Exec ''git log -1 --format=%s'' opts (Some commitMsg)"
    let ?s1 = "emit ?e1 s"
    note ran' = ran [simplified]
    show ?thesis
    proof (cases "isNonCodeCommit commitMsg")
      case True
      show ?thesis
      proof (cases rule: dollar_cases [of sys "[''git bisect skip'']" "[]" ?s1])
        case (failed opts2)
        with ran' True have "bisect_loop (Suc n) sys runSuite s
            = (Some (Inl (CommandFailed ''git bisect skip'')),
               emit (Exec ''git bisect skip'' opts2 None) ?s1)"
          by simp
        from step [unfolded this, symmetric]
        have "s' = emit (Exec ''git bisect skip'' opts2 None) ?s1"
          by (simp only: prod.inject)
        then have "trace s' = trace s @ [?e1, Exec ''git bisect skip'' opts2 None]"
          by (simp add: trace_emit)
        then show ?thesis using True
          by (auto simp: loop_events_def allowed_def noncode_log_def)
      next
        case skip: (ran opts2 out)
        let ?e2 = "Exec ''git bisect skip'' opts2 (Some out)"
        from ran' True skip
        have "bisect_loop (Suc n) sys runSuite s = bisect_loop n sys runSuite (emit ?e2 ?s1)"
          by simp
        from step [unfolded this]
        have "bisect_loop n sys runSuite (emit ?e2 ?s1) = (r, s')" .
        from Suc.IH [OF this] obtain evs where evs: "trace s' = trace (emit ?e2 ?s1) @ evs"
          "loop_events evs" by blast
        show ?thesis
          by (rule loop_events_step [OF evs, of s "[?e1, ?e2]"])
             (use evs(2) True in \<open>auto simp: trace_emit loop_events_def allowed_def noncode_log_def\<close>)
      qed
    next
      case code: False
      obtain res cwd' where probe: "runSuite (trace ?s1) (cwd ?s1) = (res, cwd')"
        by (cases "runSuite (trace ?s1) (cwd ?s1)")
      let ?s2 = "emit (Probe res) (?s1\<lparr>cwd := cwd'\<rparr>)"
      have cl: "code_log (Some ?e1)" using code by (simp add: code_log_def)
      show ?thesis
      proof (cases "\<exists>e. res = ProbeThrows e")
        case True
        then obtain e where "res = ProbeThrows e" by blast
        with ran' code probe have "bisect_loop (Suc n) sys runSuite s
            = (Some (Inl (ProbeRaised e)), ?s2)"
          by (simp add: Let_def)
        from step [unfolded this, symmetric] have "s' = ?s2" by (simp only: prod.inject)
        then have "trace s' = trace s @ [?e1, Probe res]" by (simp add: emit_def)
        then show ?thesis
          by (auto simp: loop_events_def cl allowed_def noncode_log_def)
      next
        case nothrow: False
        note pc = probe_result_case [OF nothrow]
        show ?thesis
        proof (cases rule: dollar_cases [of sys "[''git reset --hard HEAD'']" "[]"
                                          "cd sys (qwikPath ?s2) ?s2"])
          case (failed opts3)
          with ran' code probe have "bisect_loop (Suc n) sys runSuite s
              = (Some (Inl (CommandFailed ''git reset --hard HEAD'')),
                 emit (Exec ''git reset --hard HEAD'' opts3 None) (cd sys (qwikPath ?s2) ?s2))"
            by (simp add: Let_def resetChanges_def pc)
          from step [unfolded this, symmetric]
          have "s' = emit (Exec ''git reset --hard HEAD'' opts3 None) (cd sys (qwikPath ?s2) ?s2)"
            by (simp only: prod.inject)
          then have "trace s' = trace s @ [?e1, Probe res, Exec ''git reset --hard HEAD'' opts3 None]"
            by (simp add: emit_def cd_def)
          then show ?thesis
            by (auto simp: loop_events_def cl allowed_def noncode_log_def)
        next
          case reset: (ran opts3 out3)
          let ?e3 = "Exec ''git reset --hard HEAD'' opts3 (Some out3)"
          let ?s3 = "emit ?e3 (cd sys (qwikPath ?s2) ?s2)"
          let ?verdict = "[Some (if res = ProbeVoid then ''good'' else ''bad'')]"
          let ?cmd = "template [''git bisect '', ''''] ?verdict"
          have v: "?cmd \<noteq> ''git bisect reset''" "?cmd \<noteq> ''git bisect skip''"
            "?cmd \<noteq> ''git log -1 --format=%s''" by simp_all
          show ?thesis
          proof (cases rule: dollar_cases [of sys "[''git bisect '', '''']" ?verdict ?s3])
            case (failed opts4)
            with ran' code probe reset have "bisect_loop (Suc n) sys runSuite s
                = (Some (Inl (CommandFailed ?cmd)), emit (Exec ?cmd opts4 None) ?s3)"
              by (simp add: Let_def resetChanges_def pc)
            from step [unfolded this, symmetric]
            have "s' = emit (Exec ?cmd opts4 None) ?s3" by (simp only: prod.inject)
            then have "trace s' = trace s @ [?e1, Probe res, ?e3, Exec ?cmd opts4 None]"
              by (simp add: emit_def cd_def del: template.simps)
            then show ?thesis using v
              by (auto simp: loop_events_def cl allowed_def noncode_log_def simp del: template.simps)
          next
            case verdict: (ran opts4 bisectOut)
            let ?e4 = "Exec ?cmd opts4 (Some bisectOut)"
            let ?s4 = "emit ?e4 ?s3"
            have t4: "trace ?s4 = trace s @ [?e1, Probe res, ?e3, ?e4]"
              by (simp add: emit_def cd_def del: template.simps)
            from ran' code probe reset verdict
            have unfolded: "bisect_loop (Suc n) sys runSuite s
                = (if toLowerCase (take 10 bisectOut) = ''bisecting:''
                   then bisect_loop n sys runSuite ?s4 else (Some (Inr ()), ?s4))"
              by (simp add: Let_def resetChanges_def pc)
            show ?thesis
            proof (cases "toLowerCase (take 10 bisectOut) = ''bisecting:''")
              case True
              from step [unfolded unfolded] True
              have "bisect_loop n sys runSuite ?s4 = (r, s')" by (simp only: if_True simp_thms)
              from Suc.IH [OF this] obtain evs where evs: "trace s' = trace ?s4 @ evs"
                "loop_events evs" by blast
              have "\<not> noncode_log (Some ?e4)" by (simp add: noncode_log_def)
              with evs(2) have ch: "chain (Some ?e4) evs" by (simp add: loop_events_def)
              show ?thesis
                by (rule loop_events_step [OF evs, of s "[?e1, Probe res, ?e3, ?e4]"])
                   (use ch v in \<open>auto simp: t4 cl allowed_def noncode_log_def
                                        simp del: template.simps\<close>)
            next
              case stop: False
              from step [unfolded unfolded, symmetric] stop
              have "s' = ?s4" by (simp only: if_False prod.inject)
              with t4 have "trace s' = trace s @ [?e1, Probe res, ?e3, ?e4]" by simp
              then show ?thesis using v
                by (auto simp: loop_events_def cl allowed_def noncode_log_def
                      simp del: template.simps)
            qed
          qed
        qed
      qed
    qed
  qed
qed


lemma chain_probe:
  "chain prev (before @ Probe res # after) \<Longrightarrow>
     code_log (if before = [] then prev else Some (last before))"
  by (induction before arbitrary: prev) (auto simp: allowed_def)

lemma chain_noncode:
  "chain prev (before @ ev # after) \<Longrightarrow> noncode_log (Some ev) \<Longrightarrow>
     \<exists>opts r rest. after = Exec ''git bisect skip'' opts r # rest"
proof (induction before arbitrary: prev)
  case Nil
  show ?case
  proof (cases after)
    case Nil
    with Nil.prems show ?thesis by simp
  next
    case (Cons a rest)
    with Nil.prems have "allowed (Some ev) a" by simp
    with Nil.prems(2) Cons show ?thesis
      by (cases a) (auto simp: allowed_def code_log_def noncode_log_def split: event.splits option.splits)
  qed
next
  case (Cons a before)
  from Cons.prems have "chain (Some a) (before @ ev # after)" by simp
  from Cons.IH [OF this Cons.prems(2)] show ?case .
qed

lemma bisect_body_events:
  assumes "bisect_body fuel sys good runSuite s = (r, s')"
  shows "\<exists>evs. trace s' = trace s @ evs \<and> loop_events evs"
proof -
  let ?s0 = "cd sys (qwikPath s) s"
  let ?good = "template [''git bisect good '', ''''] [Some good]"
  have g: "?good \<noteq> ''git bisect reset''" "?good \<noteq> ''git bisect skip''"
    "?good \<noteq> ''git log -1 --format=%s''" by simp_all
  note defs = bisect_body_def bind_io_def resetChanges_def
  show ?thesis
  proof (cases rule: dollar_cases [of sys "[''git reset --hard HEAD'']" "[]" ?s0])
    case (failed o1)
    then have "bisect_body fuel sys good runSuite s
        = (Some (Inl (CommandFailed ''git reset --hard HEAD'')),
           emit (Exec ''git reset --hard HEAD'' o1 None) ?s0)"
      by (simp add: defs)
    from assms [unfolded this, symmetric]
    have "s' = emit (Exec ''git reset --hard HEAD'' o1 None) ?s0" by (simp only: prod.inject)
    then have "trace s' = trace s @ [Exec ''git reset --hard HEAD'' o1 None]"
      by (simp add: emit_def cd_def)
    then show ?thesis by (auto simp: loop_events_def allowed_def noncode_log_def)
  next
    case r1: (ran o1 out1)
    let ?e1 = "Exec ''git reset --hard HEAD'' o1 (Some out1)"
    let ?s1 = "emit ?e1 ?s0"
    note r1' = r1 [simplified]
    show ?thesis
    proof (cases rule: dollar_cases [of sys "[''git bisect start'']" "[]" ?s1])
      case (failed o2)
      with r1' have "bisect_body fuel sys good runSuite s
          = (Some (Inl (CommandFailed ''git bisect start'')),
             emit (Exec ''git bisect start'' o2 None) ?s1)"
        by (simp add: defs)
      from assms [unfolded this, symmetric]
      have "s' = emit (Exec ''git bisect start'' o2 None) ?s1" by (simp only: prod.inject)
      then have "trace s' = trace s @ [?e1, Exec ''git bisect start'' o2 None]"
        by (simp add: emit_def cd_def)
      then show ?thesis by (auto simp: loop_events_def allowed_def noncode_log_def)
    next
      case r2: (ran o2 out2)
      let ?e2 = "Exec ''git bisect start'' o2 (Some out2)"
      let ?s2 = "emit ?e2 ?s1"
      note r2' = r2 [simplified]
      show ?thesis
      proof (cases rule: dollar_cases [of sys "[''git bisect bad'']" "[]" ?s2])
        case (failed o3)
        with r1' r2' have "bisect_body fuel sys good runSuite s
            = (Some (Inl (CommandFailed ''git bisect bad'')),
               emit (Exec ''git bisect bad'' o3 None) ?s2)"
          by (simp add: defs)
        from assms [unfolded this, symmetric]
        have "s' = emit (Exec ''git bisect bad'' o3 None) ?s2" by (simp only: prod.inject)
        then have "trace s' = trace s @ [?e1, ?e2, Exec ''git bisect bad'' o3 None]"
          by (simp add: emit_def cd_def)
        then show ?thesis by (auto simp: loop_events_def allowed_def noncode_log_def)
      next
        case r3: (ran o3 out3)
        let ?e3 = "Exec ''git bisect bad'' o3 (Some out3)"
        let ?s3 = "emit ?e3 ?s2"
        note r3' = r3 [simplified]
        show ?thesis
        proof (cases rule: dollar_cases [of sys "[''git bisect good '', '''']" "[Some good]" ?s3])
          case (failed o4)
          with r1' r2' r3' have "bisect_body fuel sys good runSuite s
              = (Some (Inl (CommandFailed ?good)), emit (Exec ?good o4 None) ?s3)"
            by (simp add: defs)
          from assms [unfolded this, symmetric]
          have "s' = emit (Exec ?good o4 None) ?s3" by (simp only: prod.inject)
          then have "trace s' = trace s @ [?e1, ?e2, ?e3, Exec ?good o4 None]"
            by (simp add: emit_def cd_def del: template.simps)
          then show ?thesis using g
            by (auto simp: loop_events_def allowed_def noncode_log_def simp del: template.simps)
        next
          case r4: (ran o4 out4)
          let ?e4 = "Exec ?good o4 (Some out4)"
          let ?s4 = "emit ?e4 ?s3"
          from r1' r2' r3' r4 have "bisect_body fuel sys good runSuite s
              = bisect_loop fuel sys runSuite ?s4"
            by (simp add: defs)
          from assms [unfolded this]
          have "bisect_loop fuel sys runSuite ?s4 = (r, s')" .
          from bisect_loop_events [OF this] obtain evs where evs: "trace s' = trace ?s4 @ evs"
            "loop_events evs" by blast
          have t4: "trace ?s4 = trace s @ [?e1, ?e2, ?e3, ?e4]"
            by (simp add: emit_def cd_def del: template.simps)
          have "\<not> noncode_log (Some ?e4)" using g by (simp add: noncode_log_def del: template.simps)
          with evs(2) have ch: "chain (Some ?e4) evs" by (simp add: loop_events_def)
          show ?thesis
            by (rule loop_events_step [OF evs, of s "[?e1, ?e2, ?e3, ?e4]"])
               (use ch g in \<open>auto simp: t4 allowed_def noncode_log_def simp del: template.simps\<close>)
        qed
      qed
    qed
  qed
qed


lemma bisect_reset_events:
  "\<exists>opts res. bisect_reset sys s
     = (Inr (), s\<lparr>cwd := path_resolve sys (cwd s) (qwikPath s),
                   trace := trace s @ Exec ''git bisect reset'' opts res
                     # (if res = None then [Log ''Error while resetting bisect''] else [])\<rparr>)"
proof (cases rule: dollar_cases [of sys "[''git bisect reset'']" "[]" "cd sys (qwikPath s) s"])
  case (failed opts)
  then have "bisect_reset sys s = (Inr (), emit (Log ''Error while resetting bisect'')
      (emit (Exec ''git bisect reset'' opts None) (cd sys (qwikPath s) s)))"
    by (simp add: bisect_reset_def try_catch_def bind_io_def console_log_def)
  then show ?thesis by (auto simp: emit_def cd_def)
next
  case (ran opts out)
  then have "bisect_reset sys s = (Inr (),
      emit (Exec ''git bisect reset'' opts (Some out)) (cd sys (qwikPath s) s))"
    by (simp add: bisect_reset_def try_catch_def bind_io_def return_io_def)
  then show ?thesis by (auto simp: emit_def cd_def)
qed

lemma bisectQwik_events:
  assumes "bisectQwik fuel sys good runSuite s = (outcome, s')"
  shows "\<exists>evs. trace s' = trace s @ evs \<and> chain None evs
           \<and> (\<forall>r. outcome = Some r \<longrightarrow> r = Inr ()
                 \<and> (\<exists>before opts res. evs = before @ Exec ''git bisect reset'' opts res
                        # (if res = None then [Log ''Error while resetting bisect''] else [])
                      \<and> ''git bisect reset'' \<notin> set (commands before)))"
proof -
  obtain ob s1 where body: "bisect_body fuel sys good runSuite s = (ob, s1)"
    by (cases "bisect_body fuel sys good runSuite s")
  from bisect_body_events [OF body] obtain evs where evs: "trace s1 = trace s @ evs"
    and le: "loop_events evs" by blast
  from le have ch: "chain None evs" and nr: "''git bisect reset'' \<notin> set (commands evs)"
    by (simp_all add: loop_events_def noncode_log_def)
  show ?thesis
  proof (cases ob)
    case None
    with body assms have "outcome = None" "s' = s1" by (simp_all add: bisectQwik_def)
    with evs ch show ?thesis by auto
  next
    case (Some rb)
    define logged where "logged = (case rb of Inl e \<Rightarrow> [Log ''error while bisecting''] | Inr u \<Rightarrow> [])"
    define s2 where "s2 = s1\<lparr>trace := trace s1 @ logged\<rparr>"
    have tc: "try_catch (\<lambda>s'. (rb, s')) (\<lambda>e. console_log ''error while bisecting'') s1
                = (Inr (), s2)"
      by (cases rb) (simp_all add: try_catch_def console_log_def emit_def s2_def logged_def)
    from bisect_reset_events [of sys s2] obtain opts res where
      reset: "bisect_reset sys s2 = (Inr (), s2\<lparr>cwd := path_resolve sys (cwd s2) (qwikPath s2),
                   trace := trace s2 @ Exec ''git bisect reset'' opts res
                     # (if res = None then [Log ''Error while resetting bisect''] else [])\<rparr>)"
      by blast
    let ?tail = "Exec ''git bisect reset'' opts res
                   # (if res = None then [Log ''Error while resetting bisect''] else [])"
    from body Some tc reset assms
    have out: "outcome = Some (Inr ())"
      and s': "trace s' = trace s @ (evs @ logged) @ ?tail"
      by (auto simp: bisectQwik_def try_finally_def evs s2_def)
    have "chain p (logged @ ?tail)" if "\<not> noncode_log p" for p
      using that by (cases rb) (auto simp: logged_def allowed_def noncode_log_def)
    with ch have "chain None (evs @ logged @ ?tail)" by (rule chain_append)
    moreover have "''git bisect reset'' \<notin> set (commands (evs @ logged))"
      using nr by (cases rb) (simp_all add: commands_append logged_def)
    ultimately show ?thesis using out s'
      by (intro exI [of _ "(evs @ logged) @ ?tail"]) auto
  qed
qed


text \<open>
  C7. Among the events of a call of \<^verbatim>\<open>bisectQwik\<close>, however far it got, a call of the probe
  comes right after a \<^verbatim>\<open>git log -1 --format=%s\<close> that printed a subject starting neither
  with \<^verbatim>\<open>release:\<close> nor with \<^verbatim>\<open>docs:\<close>; and a \<^verbatim>\<open>git log -1 --format=%s\<close> that printed a
  subject starting with \<^verbatim>\<open>release:\<close> or \<^verbatim>\<open>docs:\<close> is followed at once by
  \<^verbatim>\<open>git bisect skip\<close>. So the commit of such a subject is never the one the probe runs on.
\<close>

theorem bisectQwik_probes_only_code_commits:
  assumes "bisectQwik fuel sys good runSuite s = (outcome, s')"
  shows "(\<forall>before res after. events_since s s' = before @ Probe res # after \<longrightarrow>
            (\<exists>before' opts commitMsg.
                before = before' @ [Exec ''git log -1 --format=%s'' opts (Some commitMsg)]
                \<and> \<not> prefix ''release:'' commitMsg \<and> \<not> prefix ''docs:'' commitMsg))
       \<and> (\<forall>before opts commitMsg after.
            events_since s s'
              = before @ Exec ''git log -1 --format=%s'' opts (Some commitMsg) # after
            \<and> (prefix ''release:'' commitMsg \<or> prefix ''docs:'' commitMsg) \<longrightarrow>
            (\<exists>opts' r rest. after = Exec ''git bisect skip'' opts' r # rest))"
proof -
  from bisectQwik_events [OF assms] obtain evs where evs: "trace s' = trace s @ evs"
    and ch: "chain None evs" by blast
  have since: "events_since s s' = evs" using evs by (simp add: events_since_def)
  have probe: "\<exists>before' opts commitMsg.
                before = before' @ [Exec ''git log -1 --format=%s'' opts (Some commitMsg)]
                \<and> \<not> prefix ''release:'' commitMsg \<and> \<not> prefix ''docs:'' commitMsg"
    if "evs = before @ Probe res # after" for before res after
  proof -
    from ch that have cl: "code_log (if before = [] then None else Some (last before))"
      using chain_probe by simp
    then have ne: "before \<noteq> []" by (auto simp: code_log_def)
    with cl obtain opts commitMsg where
      "last before = Exec ''git log -1 --format=%s'' opts (Some commitMsg)"
      "\<not> isNonCodeCommit commitMsg"
      by (auto simp: code_log_def split: event.splits option.splits)
    moreover from ne have "before = butlast before @ [last before]" by simp
    ultimately show ?thesis by (metis isNonCodeCommit_def)
  qed
  have skip: "\<exists>opts' r rest. after = Exec ''git bisect skip'' opts' r # rest"
    if "evs = before @ Exec ''git log -1 --format=%s'' opts (Some commitMsg) # after"
      and "prefix ''release:'' commitMsg \<or> prefix ''docs:'' commitMsg"
    for before opts commitMsg after
  proof -
    from that(2) have "noncode_log (Some (Exec ''git log -1 --format=%s'' opts (Some commitMsg)))"
      by (auto simp: noncode_log_def isNonCodeCommit_def)
    with ch that(1) show ?thesis using chain_noncode by blast
  qed
  from probe skip show ?thesis unfolding since by blast
qed

text \<open>
  C8. When \<^verbatim>\<open>bisectQwik\<close> ends, whether the loop ended by itself or something was raised
  in it, the call returns without raising, \<^verbatim>\<open>git bisect reset\<close> has run once, after
  everything else, and when it failed the failure is the last thing logged.
\<close>

theorem bisectQwik_resets_once_at_the_end:
  assumes "bisectQwik fuel sys good runSuite s = (Some r, s')"
  shows "r = Inr ()
       \<and> (\<exists>before opts res.
            events_since s s' = before @ Exec ''git bisect reset'' opts res
              # (if res = None then [Log ''Error while resetting bisect''] else [])
            \<and> ''git bisect reset'' \<notin> set (commands before))"
proof -
  from bisectQwik_events [OF assms] obtain evs where evs: "trace s' = trace s @ evs"
    and "r = Inr () \<and> (\<exists>before opts res. evs = before @ Exec ''git bisect reset'' opts res
                        # (if res = None then [Log ''Error while resetting bisect''] else [])
                      \<and> ''git bisect reset'' \<notin> set (commands before))"
    by blast
  moreover have "events_since s s' = evs" using evs by (simp add: events_since_def)
  ultimately show ?thesis by simp
qed

lemmas bisect_defs = bisectQwik_def bisect_body_def bisect_reset_def resetChanges_def
  try_catch_def try_finally_def console_log_def isNonCodeCommit_def toLowerCase_def
  dollar_def emit_def cd_def events_since_def

lemmas bisect_example_defs = bisect_defs io_defs example_defs bisect_sys_def failing_suite_def
  raising_suite_def

theorem bisectQwik_probes_only_code_commits_witness:
  "\<exists>s' opts.
     bisectQwik (Suc (Suc (Suc 0))) bisect_sys ''v1.0.0'' failing_suite state0 = (Some (Inr ()), s')
     \<and> events_since state0 s' =
         [Exec ''git reset --hard HEAD'' opts (Some []), Exec ''git bisect start'' opts (Some []),
          Exec ''git bisect bad'' opts (Some []), Exec ''git bisect good v1.0.0'' opts (Some []),
          Exec ''git log -1 --format=%s'' opts (Some (''docs: typo'' @ [CHR 0x0A])),
          Exec ''git bisect skip'' opts (Some []),
          Exec ''git log -1 --format=%s'' opts (Some (''fix: the bug'' @ [CHR 0x0A])),
          Probe (ProbeError ''suite failed''),
          Exec ''git reset --hard HEAD'' opts (Some []), Exec ''git bisect bad'' opts (Some []),
          Exec ''git bisect reset'' opts None, Log ''Error while resetting bisect'']
     \<and> (\<exists>before' opts' commitMsg.
           [Exec ''git reset --hard HEAD'' opts (Some []), Exec ''git bisect start'' opts (Some []),
            Exec ''git bisect bad'' opts (Some []), Exec ''git bisect good v1.0.0'' opts (Some []),
            Exec ''git log -1 --format=%s'' opts (Some (''docs: typo'' @ [CHR 0x0A])),
            Exec ''git bisect skip'' opts (Some []),
            Exec ''git log -1 --format=%s'' opts (Some (''fix: the bug'' @ [CHR 0x0A]))]
           = before' @ [Exec ''git log -1 --format=%s'' opts' (Some commitMsg)]
           \<and> \<not> prefix ''release:'' commitMsg \<and> \<not> prefix ''docs:'' commitMsg)"
proof -
  define opts where
    "opts = \<lparr>opt_cwd = ''/ci/workspace/qwik'', opt_encoding = ''utf-8'', opt_env = None\<rparr>"
  define before where "before =
    [Exec ''git reset --hard HEAD'' opts (Some []), Exec ''git bisect start'' opts (Some []),
     Exec ''git bisect bad'' opts (Some []), Exec ''git bisect good v1.0.0'' opts (Some []),
     Exec ''git log -1 --format=%s'' opts (Some (''docs: typo'' @ [CHR 0x0A])),
     Exec ''git bisect skip'' opts (Some []),
     Exec ''git log -1 --format=%s'' opts (Some (''fix: the bug'' @ [CHR 0x0A]))]"
  define after where "after =
    [Exec ''git reset --hard HEAD'' opts (Some []), Exec ''git bisect bad'' opts (Some []),
     Exec ''git bisect reset'' opts None, Log ''Error while resetting bisect'']"
  obtain s' where run: "bisectQwik (Suc (Suc (Suc 0))) bisect_sys ''v1.0.0'' failing_suite state0
      = (Some (Inr ()), s')"
    by (simp add: bisect_example_defs)
  then have "s' = snd (bisectQwik (Suc (Suc (Suc 0))) bisect_sys ''v1.0.0'' failing_suite state0)"
    by simp
  then have ev: "events_since state0 s' = before @ Probe (ProbeError ''suite failed'') # after"
    by (simp add: bisect_example_defs before_def after_def opts_def)
  from bisectQwik_probes_only_code_commits [OF run] ev
  have "\<exists>before' opts' commitMsg.
          before = before' @ [Exec ''git log -1 --format=%s'' opts' (Some commitMsg)]
          \<and> \<not> prefix ''release:'' commitMsg \<and> \<not> prefix ''docs:'' commitMsg"
    by blast
  with run ev show ?thesis
    unfolding before_def after_def by (intro exI [of _ s'] exI [of _ opts]) simp
qed

theorem bisectQwik_resets_once_at_the_end_witness:
  "\<exists>s'. bisectQwik (Suc (Suc (Suc 0))) bisect_sys ''v1.0.0'' raising_suite state0
           = (Some (Inr ()), s')
     \<and> (\<exists>before opts res.
            events_since state0 s' = before @ Exec ''git bisect reset'' opts res
              # (if res = None then [Log ''Error while resetting bisect''] else [])
            \<and> ''git bisect reset'' \<notin> set (commands before))
     \<and> commands (events_since state0 s') =
          [''git reset --hard HEAD'', ''git bisect start'', ''git bisect bad'',
           ''git bisect good v1.0.0'', ''git log -1 --format=%s'', ''git bisect skip'',
           ''git log -1 --format=%s'', ''git bisect reset'']
     \<and> Probe (ProbeThrows ''suite raised'') \<in> set (events_since state0 s')
     \<and> Log ''Error while resetting bisect'' \<in> set (events_since state0 s')"
proof -
  obtain s' where run: "bisectQwik (Suc (Suc (Suc 0))) bisect_sys ''v1.0.0'' raising_suite state0
      = (Some (Inr ()), s')"
    by (simp add: bisect_example_defs)
  then have "s' = snd (bisectQwik (Suc (Suc (Suc 0))) bisect_sys ''v1.0.0'' raising_suite state0)"
    by simp
  then have "commands (events_since state0 s') =
          [''git reset --hard HEAD'', ''git bisect start'', ''git bisect bad'',
           ''git bisect good v1.0.0'', ''git log -1 --format=%s'', ''git bisect skip'',
           ''git log -1 --format=%s'', ''git bisect reset'']"
    and "Probe (ProbeThrows ''suite raised'') \<in> set (events_since state0 s')"
    and "Log ''Error while resetting bisect'' \<in> set (events_since state0 s')"
    by (simp_all add: bisect_example_defs)
  with bisectQwik_resets_once_at_the_end [OF run] run show ?thesis by blast
qed


end
